theory Spec2Isabelle
  imports Main
begin

section \<open>The bundle factory of shikiji: packages/shikiji/src/core/bundle-factory.ts\<close>

subsection \<open>Data\<close>

text \<open>
  \<open>MaybeArray<T>\<close> is \<open>T | T[]\<close>. Its declaration lives in ../types, which is not among
  the sources; the two alternatives are the two constructors.
\<close>

datatype 'a MaybeArray = One 'a | Many "'a list"

text \<open>
  Modelled from the spec: \<open>toArray\<close> of ./utils is not among the sources. The spec speaks of
  "theme(s)" and "language(s)": a single value stands for the one-element sequence, an array
  for itself.
\<close>

fun toArray :: "'a MaybeArray \<Rightarrow> 'a list" where
  "toArray (One x) = [x]"
| "toArray (Many xs) = xs"

text \<open>
  A \<open>LanguageInput\<close> is an array of registrations or something else (a single registration,
  a lazy getter); the only value the factory itself builds is the empty array. A
  \<open>ThemeInput\<close> is opaque: the type variable \<open>'t\<close>. Both are objects, arrays or functions.
\<close>

datatype 'l LanguageInput = LangArray "'l list" | LangOther 'l

text \<open>
  The values that flow through the resolver besides string ids. TypeScript's types are gone
  at run time, so next to a definition of type \<open>'d\<close> there are the two values that the
  code can meet without a type error being possible: a member that a table inherits from
  its prototype (named by the property it was found under), and \<open>undefined\<close>. A definition
  and an inherited member are objects or functions, hence truthy; \<open>undefined\<close> is falsy.
\<close>

datatype 'd jsval = Definition 'd | Inherited string | Undefined

fun truthy :: "'d jsval \<Rightarrow> bool" where
  "truthy (Definition d) = True"
| "truthy (Inherited n) = True"
| "truthy Undefined = False"

text \<open>
  What a caller hands over: \<open>typeof x === 'string'\<close> separates the two constructors.
\<close>

datatype 'l LangRef = LangId string | LangDef "'l LanguageInput jsval"

datatype 't ThemeRef = ThemeId string | ThemeDef "'t jsval"

text \<open>
  A bundle table is a JavaScript object: its own properties, which are definitions, and
  the property names that its prototype chain answers with a truthy member. \<open>tbl[key]\<close> is
  the own property when there is one, else the inherited member, else \<open>undefined\<close>.
\<close>

record 'd table =
  own :: "string \<rightharpoonup> 'd"
  proto :: "string list"

definition property :: "'d table \<Rightarrow> string \<Rightarrow> 'd jsval" where
  "property tbl key =
     (case own tbl key of
        Some d \<Rightarrow> Definition d
      | None \<Rightarrow> if key \<in> set (proto tbl) then Inherited key else Undefined)"

text \<open>
  An object written as a literal, with distinct keys, inherits from \<open>Object.prototype\<close>,
  whose members are functions, and for \<open>__proto__\<close> an object.
\<close>

definition Object_prototype :: "string list" where
  "Object_prototype =
     [''constructor'', ''toString'', ''toLocaleString'', ''valueOf'', ''hasOwnProperty'',
      ''isPrototypeOf'', ''propertyIsEnumerable'', ''__proto__'', ''__defineGetter__'',
      ''__defineSetter__'', ''__lookupGetter__'', ''__lookupSetter__'']"

definition plain_object :: "(string \<times> 'd) list \<Rightarrow> 'd table" where
  "plain_object properties = \<lparr> own = map_of properties, proto = Object_prototype \<rparr>"

text \<open>
  The two \<open>throw new Error(...)\<close> of the resolver are the constructor \<open>NotBundled\<close>, with
  the kind and the id that the message interpolates; whatever the engine raises is
  \<open>EngineFailure\<close>.
\<close>

datatype kind = Language | Theme

datatype error = NotBundled kind string | EngineFailure string

fun kind_name :: "kind \<Rightarrow> string" where
  "kind_name Language = ''Language''"
| "kind_name Theme = ''Theme''"

fun message :: "error \<Rightarrow> string" where
  "message (NotBundled k i) = ''[shikiji] '' @ kind_name k @ '' `'' @ i @ ''` is not built-in.''"
| "message (EngineFailure m) = m"

text \<open>
  Modelled from the spec: \<open>isPlaintext\<close> of ./utils is not among the sources. The functions
  below take the predicate as a parameter, so every theorem about them holds for whatever
  ./utils defines; this instance, the single marker \<open>plaintext\<close> of the spec, is used where
  a concrete predicate is needed.
\<close>

definition isPlaintext_marker :: "string \<Rightarrow> bool" where
  "isPlaintext_marker lang = (lang = ''plaintext'')"

subsection \<open>The resolver (lines 20-40)\<close>

text \<open>
  \<open>bundle\<close> is whatever the property access yields; \<open>!bundle\<close> is the negation of its
  truthiness. A reference that is not a string is returned as it is.
\<close>

fun resolveLang ::
  "(string \<Rightarrow> bool) \<Rightarrow> 'l LanguageInput table \<Rightarrow> 'l LangRef \<Rightarrow> error + 'l LanguageInput jsval"
where
  "resolveLang isPlaintext bundledLanguages (LangId lang) =
     (if isPlaintext lang then Inr (Definition (LangArray []))
      else (let bundle = property bundledLanguages lang
            in if \<not> truthy bundle then Inl (NotBundled Language lang) else Inr bundle))"
| "resolveLang isPlaintext bundledLanguages (LangDef lang) = Inr lang"

fun resolveTheme :: "'t table \<Rightarrow> 't ThemeRef \<Rightarrow> error + 't jsval" where
  "resolveTheme bundledThemes (ThemeId theme) =
     (let bundle = property bundledThemes theme
      in if \<not> truthy bundle then Inl (NotBundled Theme theme) else Inr bundle)"
| "resolveTheme bundledThemes (ThemeDef theme) = Inr theme"

text \<open>
  \<open>xs.map(f)\<close> with a callback that may throw: the elements are visited in order and the
  first throw ends the whole call.
\<close>

fun map_throw :: "('a \<Rightarrow> error + 'b) \<Rightarrow> 'a list \<Rightarrow> error + 'b list" where
  "map_throw f [] = Inr []"
| "map_throw f (x # xs) =
     (case f x of
        Inl e \<Rightarrow> Inl e
      | Inr y \<Rightarrow> (case map_throw f xs of Inl e \<Rightarrow> Inl e | Inr ys \<Rightarrow> Inr (y # ys)))"

subsection \<open>getHighlighter (lines 19-66)\<close>

text \<open>
  The options: \<open>themes\<close> and \<open>langs\<close> may be omitted (\<open>None\<close>); \<open>other\<close> holds the
  properties besides these two, by name.
\<close>

record ('l, 't, 'o) BundledHighlighterOptions =
  themes :: "'t ThemeRef list option"
  langs :: "'l LangRef list option"
  other :: "(string \<times> 'o) list"

record ('l, 't, 'o, 'w) HighlighterCoreOptions =
  core_themes :: "'t jsval list"
  core_langs :: "'l LanguageInput jsval list"
  loadWasm :: 'w
  core_other :: "(string \<times> 'o) list"

text \<open>
  The engine's instance, as far as this layer touches it: three rendering entry points,
  each from the code and its options to an output, and two loaders, whose result type
  \<open>'r\<close> is left open (a promise, for the engine).
\<close>

record ('l, 't, 'c, 'h, 'r) HighlighterCore =
  core_codeToHtml :: "string \<Rightarrow> 'c \<Rightarrow> 'h"
  core_codeToThemedTokens :: "string \<Rightarrow> 'c \<Rightarrow> 'h"
  core_codeToHtmlThemes :: "string \<Rightarrow> 'c \<Rightarrow> 'h"
  core_loadLanguage :: "'l LanguageInput jsval list \<Rightarrow> 'r"
  core_loadTheme :: "'t jsval list \<Rightarrow> 'r"

text \<open>
  The object \<open>getHighlighter\<close> returns: \<open>...core\<close> copies the entry points, three of them
  are then replaced. The second argument of \<open>codeToHtml\<close> may be omitted.
\<close>

record ('l, 't, 'c, 'h, 'r) HighlighterGeneric =
  codeToHtml :: "string \<Rightarrow> 'c option \<Rightarrow> 'h"
  codeToThemedTokens :: "string \<Rightarrow> 'c \<Rightarrow> 'h"
  codeToHtmlThemes :: "string \<Rightarrow> 'c \<Rightarrow> 'h"
  loadLanguage :: "'l LangRef list \<Rightarrow> error + 'r"
  loadTheme :: "'t ThemeRef list \<Rightarrow> error + 'r"

text \<open>
  Lines 54-65. \<open>emptyOptions\<close> is the object \<open>{}\<close> that the default parameter of
  \<open>codeToHtml\<close> supplies.
\<close>

definition wrapCore ::
  "(string \<Rightarrow> bool) \<Rightarrow> 'l LanguageInput table \<Rightarrow> 't table \<Rightarrow> 'c \<Rightarrow>
   ('l, 't, 'c, 'h, 'r) HighlighterCore \<Rightarrow> ('l, 't, 'c, 'h, 'r) HighlighterGeneric"
where
  "wrapCore isPlaintext bundledLanguages bundledThemes emptyOptions core =
     \<lparr> codeToHtml = (\<lambda>code options.
         core_codeToHtml core code (case options of None \<Rightarrow> emptyOptions | Some opts \<Rightarrow> opts)),
       codeToThemedTokens = core_codeToThemedTokens core,
       codeToHtmlThemes = core_codeToHtmlThemes core,
       loadLanguage = (\<lambda>ls.
         case map_throw (resolveLang isPlaintext bundledLanguages) ls of
           Inl e \<Rightarrow> Inl e
         | Inr resolved \<Rightarrow> Inr (core_loadLanguage core resolved)),
       loadTheme = (\<lambda>ts.
         case map_throw (resolveTheme bundledThemes) ts of
           Inl e \<Rightarrow> Inl e
         | Inr resolved \<Rightarrow> Inr (core_loadTheme core resolved)) \<rparr>"

text \<open>
  Lines 42-52: the argument of \<open>getHighlighterCore\<close>. Themes are resolved first, then
  languages; a throw in either leaves the function before the engine is reached. In the
  object literal \<open>{...options, themes, langs, loadWasm}\<close> the three named properties
  replace what the spread copied, so a \<open>loadWasm\<close> of the caller's does not reach the
  engine.
\<close>

definition coreOptions ::
  "(string \<Rightarrow> bool) \<Rightarrow> 'l LanguageInput table \<Rightarrow> 't table \<Rightarrow> 'w \<Rightarrow>
   ('l, 't, 'o) BundledHighlighterOptions \<Rightarrow> error + ('l, 't, 'o, 'w) HighlighterCoreOptions"
where
  "coreOptions isPlaintext bundledLanguages bundledThemes ladWasm options =
     (case map_throw (resolveTheme bundledThemes)
             (case themes options of None \<Rightarrow> [] | Some ts \<Rightarrow> ts) of
        Inl e \<Rightarrow> Inl e
      | Inr resolved_themes \<Rightarrow>
          (case map_throw (resolveLang isPlaintext bundledLanguages)
                  (case langs options of None \<Rightarrow> [] | Some ls \<Rightarrow> ls) of
             Inl e \<Rightarrow> Inl e
           | Inr resolved_langs \<Rightarrow>
               Inr \<lparr> core_themes = resolved_themes, core_langs = resolved_langs,
                     loadWasm = ladWasm,
                     core_other = filter (\<lambda>p. fst p \<noteq> ''loadWasm'') (other options) \<rparr>))"

text \<open>
  The awaited result of \<open>getHighlighter\<close>. \<open>getHighlighterCore\<close> of ./core is the engine's
  constructor, a parameter here: it gives the outcome of the construction. \<open>calls\<close> is the
  list of arguments with which the constructor has been invoked so far; an invocation
  appends to it.
\<close>

definition getHighlighter ::
  "(string \<Rightarrow> bool) \<Rightarrow> 'l LanguageInput table \<Rightarrow> 't table \<Rightarrow> 'w \<Rightarrow> 'c \<Rightarrow>
   (('l, 't, 'o, 'w) HighlighterCoreOptions \<Rightarrow> error + ('l, 't, 'c, 'h, 'r) HighlighterCore) \<Rightarrow>
   ('l, 't, 'o) BundledHighlighterOptions \<Rightarrow>
   ('l, 't, 'o, 'w) HighlighterCoreOptions list \<Rightarrow>
   (error + ('l, 't, 'c, 'h, 'r) HighlighterGeneric) \<times> ('l, 't, 'o, 'w) HighlighterCoreOptions list"
where
  "getHighlighter isPlaintext bundledLanguages bundledThemes ladWasm emptyOptions
       getHighlighterCore options calls =
     (case coreOptions isPlaintext bundledLanguages bundledThemes ladWasm options of
        Inl e \<Rightarrow> (Inl e, calls)
      | Inr co \<Rightarrow>
          (case getHighlighterCore co of
             Inl e \<Rightarrow> (Inl e, calls @ [co])
           | Inr core \<Rightarrow>
               (Inr (wrapCore isPlaintext bundledLanguages bundledThemes emptyOptions core),
                calls @ [co])))"

subsection \<open>Predicates and a test engine used in the statements\<close>

text \<open>
  A reference that the resolver rejects: a string id for which the table's property access
  yields nothing truthy (and which, for a language, is not a plaintext marker).
\<close>

fun unbundledTheme :: "'t table \<Rightarrow> 't ThemeRef \<Rightarrow> bool" where
  "unbundledTheme bundledThemes (ThemeId theme) = (\<not> truthy (property bundledThemes theme))"
| "unbundledTheme bundledThemes (ThemeDef theme) = False"

fun unbundledLang :: "(string \<Rightarrow> bool) \<Rightarrow> 'l LanguageInput table \<Rightarrow> 'l LangRef \<Rightarrow> bool" where
  "unbundledLang isPlaintext bundledLanguages (LangId lang) =
     (\<not> isPlaintext lang \<and> \<not> truthy (property bundledLanguages lang))"
| "unbundledLang isPlaintext bundledLanguages (LangDef lang) = False"

text \<open>
  A stand-in engine for the closed examples below: its constructor always succeeds, its
  renderers return the code and its loaders return at once. No general theorem depends on it.
\<close>

definition plainCore :: "('l, 't, unit, string, unit) HighlighterCore" where
  "plainCore =
     \<lparr> core_codeToHtml = (\<lambda>code opts. code),
       core_codeToThemedTokens = (\<lambda>code opts. code),
       core_codeToHtmlThemes = (\<lambda>code opts. code),
       core_loadLanguage = (\<lambda>ls. ()),
       core_loadTheme = (\<lambda>ts. ()) \<rparr>"

definition plainEngine ::
  "('l, 't, 'o, 'w) HighlighterCoreOptions \<Rightarrow> error + ('l, 't, unit, string, unit) HighlighterCore"
where
  "plainEngine co = Inr plainCore"

subsection \<open>createSingletonShorthands (lines 71-133)\<close>

text \<open>
  The argument of \<open>getShikiWithThemeLang\<close>: \<open>theme\<close> and \<open>lang\<close>, each one reference or an
  array. The declared types allow ids only; what arrives is handed on to \<open>getHighlighter\<close>
  and to the loaders as it is, so the fields hold references of any kind.
\<close>

record ('l, 't) ThemeLang =
  theme :: "'t ThemeRef MaybeArray"
  lang :: "'l LangRef MaybeArray"

text \<open>
  Modelled from the spec: the engine of ./core is not among the sources. Its instance is
  "the live, mutable object holding all currently loaded grammars and themes"; construction
  loads the themes and languages of its options, and the loaders are "idempotent,
  incremental": they add what is not there yet.
\<close>

record ('l, 't) HighlighterInstance =
  loadedThemes :: "'t jsval list"
  loadedLangs :: "'l LanguageInput jsval list"

text \<open>
  JavaScript runs one piece of code at a time and an \<open>async\<close> function gives up control
  only at an \<open>await\<close>. The closure of \<open>createSingletonShorthands\<close> is therefore a state
  machine whose steps are the pieces of code between two awaits, together with the moments
  at which the engine finishes a piece of work; a schedule is a list of such steps, in any
  order.

  A promise returned by \<open>getHighlighter\<close> is pending on a construction with the given
  options, fulfilled with an instance (an index into \<open>instances\<close>), or rejected.
\<close>

datatype ('l, 't, 'o, 'w) promise =
    Pending "('l, 't, 'o, 'w) HighlighterCoreOptions"
  | Fulfilled nat
  | Rejected error

text \<open>
  A call of \<open>getShikiWithThemeLang\<close>:
  \<^item> \<open>Returned p\<close>: it took the first branch and returned \<open>_shiki\<close> (line 80), so it settles
    as the promise \<open>p\<close> does;
  \<^item> \<open>Awaiting p options\<close>: it is suspended at \<open>await _shiki\<close> (line 83);
  \<^item> \<open>Loading i options tp lp err\<close>: it has passed line 83 with the instance \<open>i\<close>; \<open>tp\<close> and
    \<open>lp\<close> are the theme load and the language load still in flight (\<open>None\<close>: not in
    flight), \<open>err\<close> the first error that rejected the call, if any. With nothing in flight
    and no error it has returned \<open>s\<close> (line 88);
  \<^item> \<open>Failed e\<close>: it was rejected before any load was issued.
\<close>

datatype ('l, 't) task =
    Returned nat
  | Awaiting nat "('l, 't) ThemeLang"
  | Loading nat "('l, 't) ThemeLang" "'t jsval list option" "'l LanguageInput jsval list option"
      "error option"
  | Failed error

text \<open>
  The closure: \<open>shiki\<close> is the variable \<open>_shiki\<close> (\<open>None\<close>: undefined, otherwise the index of
  a promise), \<open>promises\<close> the promises that \<open>getHighlighter\<close> has returned,
  \<open>factory_calls\<close> the arguments of its invocations, \<open>instances\<close> the instances the engine
  has constructed, \<open>tasks\<close> the calls of \<open>getShikiWithThemeLang\<close> in the order they were made.
\<close>

record ('l, 't, 'o, 'w) coordinator =
  shiki :: "nat option"
  promises :: "('l, 't, 'o, 'w) promise list"
  factory_calls :: "('l, 't, 'o) BundledHighlighterOptions list"
  instances :: "('l, 't) HighlighterInstance list"
  tasks :: "('l, 't) task list"

definition init :: "('l, 't, 'o, 'w) coordinator" where
  "init = \<lparr> shiki = None, promises = [], factory_calls = [], instances = [], tasks = [] \<rparr>"

text \<open>
  Lines 74-83, up to the first point where the call returns or is suspended. The factory is
  the \<open>getHighlighter\<close> above: it resolves the options at once, so its promise is rejected
  from the start when an id is not bundled, and pending on the engine otherwise.
\<close>

definition getShikiWithThemeLang ::
  "(string \<Rightarrow> bool) \<Rightarrow> 'l LanguageInput table \<Rightarrow> 't table \<Rightarrow> 'w \<Rightarrow>
   ('l, 't) ThemeLang \<Rightarrow> ('l, 't, 'o, 'w) coordinator \<Rightarrow> ('l, 't, 'o, 'w) coordinator"
where
  "getShikiWithThemeLang isPlaintext bundledLanguages bundledThemes ladWasm options s =
     (case shiki s of
        None \<Rightarrow>
          (let args = \<lparr> themes = Some (toArray (theme options)),
                        langs = Some (toArray (lang options)),
                        other = [] \<rparr>;
               p = (case coreOptions isPlaintext bundledLanguages bundledThemes ladWasm args of
                      Inl e \<Rightarrow> Rejected e
                    | Inr co \<Rightarrow> Pending co)
           in s\<lparr> shiki := Some (length (promises s)),
                  promises := promises s @ [p],
                  factory_calls := factory_calls s @ [args],
                  tasks := tasks s @ [Returned (length (promises s))] \<rparr>)
      | Some p \<Rightarrow> s\<lparr> tasks := tasks s @ [Awaiting p options] \<rparr>)"

text \<open>
  Modelled from the spec: the engine's constructor is not among the sources. The engine
  finishes the construction behind promise \<open>p\<close> at some point of its own choosing: with a
  failure message, or with a new instance that holds the themes and languages of the
  options.
\<close>

definition settle ::
  "nat \<Rightarrow> string option \<Rightarrow> ('l, 't, 'o, 'w) coordinator \<Rightarrow> ('l, 't, 'o, 'w) coordinator"
where
  "settle p failure s =
     (if p < length (promises s) then
        (case promises s ! p of
           Pending co \<Rightarrow>
             (case failure of
                Some m \<Rightarrow> s\<lparr> promises := (promises s)[p := Rejected (EngineFailure m)] \<rparr>
              | None \<Rightarrow>
                  s\<lparr> promises := (promises s)[p := Fulfilled (length (instances s))],
                     instances := instances s @
                       [\<lparr> loadedThemes = core_themes co, loadedLangs = core_langs co \<rparr>] \<rparr>)
         | Fulfilled i \<Rightarrow> s
         | Rejected e \<Rightarrow> s)
      else s)"

text \<open>
  Lines 83-87: the call \<open>t\<close> wakes up from \<open>await _shiki\<close>. A rejected promise rejects the
  call. Otherwise \<open>s.loadTheme(...)\<close> and then \<open>s.loadLanguage(...)\<close> are called while the
  array for \<open>Promise.all\<close> is built; each maps the resolver over its arguments first (lines
  59-64) and throws if an id is not bundled, which rejects the call on the spot.
\<close>

definition resume ::
  "(string \<Rightarrow> bool) \<Rightarrow> 'l LanguageInput table \<Rightarrow> 't table \<Rightarrow>
   nat \<Rightarrow> ('l, 't, 'o, 'w) coordinator \<Rightarrow> ('l, 't, 'o, 'w) coordinator"
where
  "resume isPlaintext bundledLanguages bundledThemes t s =
     (if t < length (tasks s) then
        (case tasks s ! t of
           Awaiting p options \<Rightarrow>
             (if p < length (promises s) then
                (case promises s ! p of
                   Pending co \<Rightarrow> s
                 | Rejected e \<Rightarrow> s\<lparr> tasks := (tasks s)[t := Failed e] \<rparr>
                 | Fulfilled i \<Rightarrow>
                     (case map_throw (resolveTheme bundledThemes) (toArray (theme options)) of
                        Inl e \<Rightarrow> s\<lparr> tasks := (tasks s)[t := Failed e] \<rparr>
                      | Inr ts \<Rightarrow>
                          (case map_throw (resolveLang isPlaintext bundledLanguages)
                                  (toArray (lang options)) of
                             Inl e \<Rightarrow>
                               s\<lparr> tasks := (tasks s)[t := Loading i options (Some ts) None (Some e)] \<rparr>
                           | Inr ls \<Rightarrow>
                               s\<lparr> tasks := (tasks s)[t := Loading i options (Some ts) (Some ls) None] \<rparr>)))
              else s)
         | Returned p \<Rightarrow> s
         | Loading i options tp lp err \<Rightarrow> s
         | Failed e \<Rightarrow> s)
      else s)"

text \<open>
  The first rejection is the one \<open>Promise.all\<close> reports.
\<close>

fun first_error :: "error option \<Rightarrow> error \<Rightarrow> error option" where
  "first_error None e = Some e"
| "first_error (Some e') e = Some e'"

text \<open>
  Modelled from the spec: the engine's loaders are not among the sources. The engine
  finishes the theme load, or the language load, of call \<open>t\<close>: with a failure message, or
  having added the definitions to the instance. A load goes on after its call has been
  rejected for another reason.
\<close>

definition themeLoaded ::
  "nat \<Rightarrow> string option \<Rightarrow> ('l, 't, 'o, 'w) coordinator \<Rightarrow> ('l, 't, 'o, 'w) coordinator"
where
  "themeLoaded t failure s =
     (if t < length (tasks s) then
        (case tasks s ! t of
           Loading i options (Some ts) lp err \<Rightarrow>
             (case failure of
                Some m \<Rightarrow>
                  s\<lparr> tasks := (tasks s)[t := Loading i options None lp
                                                 (first_error err (EngineFailure m))] \<rparr>
              | None \<Rightarrow>
                  s\<lparr> instances := (instances s)[i := (instances s ! i)
                         \<lparr> loadedThemes := List.union ts (loadedThemes (instances s ! i)) \<rparr>],
                     tasks := (tasks s)[t := Loading i options None lp err] \<rparr>)
         | _ \<Rightarrow> s)
      else s)"

definition langLoaded ::
  "nat \<Rightarrow> string option \<Rightarrow> ('l, 't, 'o, 'w) coordinator \<Rightarrow> ('l, 't, 'o, 'w) coordinator"
where
  "langLoaded t failure s =
     (if t < length (tasks s) then
        (case tasks s ! t of
           Loading i options tp (Some ls) err \<Rightarrow>
             (case failure of
                Some m \<Rightarrow>
                  s\<lparr> tasks := (tasks s)[t := Loading i options tp None
                                                 (first_error err (EngineFailure m))] \<rparr>
              | None \<Rightarrow>
                  s\<lparr> instances := (instances s)[i := (instances s ! i)
                         \<lparr> loadedLangs := List.union ls (loadedLangs (instances s ! i)) \<rparr>],
                     tasks := (tasks s)[t := Loading i options tp None err] \<rparr>)
         | _ \<Rightarrow> s)
      else s)"

datatype ('l, 't) action =
    Call "('l, 't) ThemeLang"
  | Settle nat "string option"
  | Resume nat
  | ThemeLoaded nat "string option"
  | LangLoaded nat "string option"

fun step ::
  "(string \<Rightarrow> bool) \<Rightarrow> 'l LanguageInput table \<Rightarrow> 't table \<Rightarrow> 'w \<Rightarrow>
   ('l, 't) action \<Rightarrow> ('l, 't, 'o, 'w) coordinator \<Rightarrow> ('l, 't, 'o, 'w) coordinator"
where
  "step P bl bt w (Call options) s = getShikiWithThemeLang P bl bt w options s"
| "step P bl bt w (Settle p failure) s = settle p failure s"
| "step P bl bt w (Resume t) s = resume P bl bt t s"
| "step P bl bt w (ThemeLoaded t failure) s = themeLoaded t failure s"
| "step P bl bt w (LangLoaded t failure) s = langLoaded t failure s"

fun run ::
  "(string \<Rightarrow> bool) \<Rightarrow> 'l LanguageInput table \<Rightarrow> 't table \<Rightarrow> 'w \<Rightarrow>
   ('l, 't) action list \<Rightarrow> ('l, 't, 'o, 'w) coordinator \<Rightarrow> ('l, 't, 'o, 'w) coordinator"
where
  "run P bl bt w [] s = s"
| "run P bl bt w (a # as) s = run P bl bt w as (step P bl bt w a s)"

text \<open>
  The engine completes, without failure, whatever call \<open>t\<close> is waiting for: the
  construction, and after the call has woken up its two loads. A step that has nothing to
  do leaves the state as it is.
\<close>

definition completion :: "nat \<Rightarrow> ('l, 't) action list" where
  "completion t = [Settle 0 None, Resume t, ThemeLoaded t None, LangLoaded t None]"

text \<open>
  What the caller of call \<open>t\<close> has received so far: nothing yet, an error, or an instance.
\<close>

definition outcome :: "('l, 't, 'o, 'w) coordinator \<Rightarrow> nat \<Rightarrow> (error + nat) option" where
  "outcome s t =
     (if t < length (tasks s) then
        (case tasks s ! t of
           Returned p \<Rightarrow>
             (if p < length (promises s) then
                (case promises s ! p of
                   Pending co \<Rightarrow> None
                 | Fulfilled i \<Rightarrow> Some (Inr i)
                 | Rejected e \<Rightarrow> Some (Inl e))
              else None)
         | Awaiting p options \<Rightarrow> None
         | Loading i options tp lp (Some e) \<Rightarrow> Some (Inl e)
         | Loading i options None None None \<Rightarrow> Some (Inr i)
         | Loading i options tp lp None \<Rightarrow> None
         | Failed e \<Rightarrow> Some (Inl e))
      else None)"

text \<open>
  The shorthand \<open>codeToHtmlThemes\<close> (lines 120-126), up to its call of
  \<open>getShikiWithThemeLang\<close>; what follows the await is the engine's rendering. A value of the
  \<open>themes\<close> mapping is a theme id or \<open>undefined\<close>; the mapping is the list of its
  properties in the order \<open>Object.values\<close> enumerates them. \<open>Boolean\<close> is JavaScript's
  truthiness: of strings only the empty one is falsy. The cast \<open>as T[]\<close> changes nothing:
  what \<open>filter\<close> lets through is what \<open>getShikiWithThemeLang\<close> receives.
\<close>

fun Boolean :: "'t ThemeRef \<Rightarrow> bool" where
  "Boolean (ThemeId n) = (n \<noteq> [])"
| "Boolean (ThemeDef v) = truthy v"

definition Object_values :: "(string \<times> 'a) list \<Rightarrow> 'a list" where
  "Object_values obj = map snd obj"

record ('l, 't) CodeToHtmlThemesOptions =
  opt_lang :: "'l LangRef"
  opt_themes :: "(string \<times> 't ThemeRef) list"

definition codeToHtmlThemes_request ::
  "('l, 't) CodeToHtmlThemesOptions \<Rightarrow> ('l, 't) ThemeLang"
where
  "codeToHtmlThemes_request options =
     \<lparr> theme = Many (filter Boolean (Object_values (opt_themes options))),
       lang = One (opt_lang options) \<rparr>"

definition codeToHtmlThemes_shorthand ::
  "(string \<Rightarrow> bool) \<Rightarrow> 'l LanguageInput table \<Rightarrow> 't table \<Rightarrow> 'w \<Rightarrow>
   ('l, 't) CodeToHtmlThemesOptions \<Rightarrow> ('l, 't, 'o, 'w) coordinator \<Rightarrow> ('l, 't, 'o, 'w) coordinator"
where
  "codeToHtmlThemes_shorthand isPlaintext bundledLanguages bundledThemes ladWasm options s =
     getShikiWithThemeLang isPlaintext bundledLanguages bundledThemes ladWasm
       (codeToHtmlThemes_request options) s"

subsection \<open>The invariant of the closure\<close>

text \<open>
  Instance \<open>i\<close> exists and holds the given themes, or the given languages.
\<close>

definition themes_loaded ::
  "('l, 't) HighlighterInstance list \<Rightarrow> nat \<Rightarrow> 't jsval list \<Rightarrow> bool"
where
  "themes_loaded is i ts = (i < length is \<and> set ts \<subseteq> set (loadedThemes (is ! i)))"

definition langs_loaded ::
  "('l, 't) HighlighterInstance list \<Rightarrow> nat \<Rightarrow> 'l LanguageInput jsval list \<Rightarrow> bool"
where
  "langs_loaded is i ls = (i < length is \<and> set ls \<subseteq> set (loadedLangs (is ! i)))"

fun is_fulfilled :: "('l, 't, 'o, 'w) promise \<Rightarrow> bool" where
  "is_fulfilled (Fulfilled i) = True"
| "is_fulfilled (Pending co) = False"
| "is_fulfilled (Rejected e) = False"

text \<open>
  A call is consistent with the promises and the instances: it waits on the one promise
  there is; it has failed before loading only with the promise's own rejection, or after
  the promise was fulfilled; once it holds an instance, that is the instance of the
  fulfilled promise, and as long as it has not been rejected each of its two loads is in
  flight with the resolved definitions of its request, or done, with those definitions in
  the instance.
\<close>

fun task_ok ::
  "(string \<Rightarrow> bool) \<Rightarrow> 'l LanguageInput table \<Rightarrow> 't table \<Rightarrow>
   ('l, 't, 'o, 'w) promise list \<Rightarrow> ('l, 't) HighlighterInstance list \<Rightarrow> ('l, 't) task \<Rightarrow> bool"
where
  "task_ok P bl bt ps is (Returned p) = (p = 0 \<and> ps \<noteq> [])"
| "task_ok P bl bt ps is (Awaiting p options) = (p = 0 \<and> ps \<noteq> [])"
| "task_ok P bl bt ps is (Failed e) = (ps = [Rejected e] \<or> ps \<noteq> [] \<and> list_all is_fulfilled ps)"
| "task_ok P bl bt ps is (Loading i options tp lp err) =
     (ps = [Fulfilled i] \<and>
      (err = None \<longrightarrow>
         (case map_throw (resolveTheme bt) (toArray (theme options)) of
            Inl e \<Rightarrow> False
          | Inr ts \<Rightarrow>
              (case map_throw (resolveLang P bl) (toArray (lang options)) of
                 Inl e \<Rightarrow> False
               | Inr ls \<Rightarrow>
                   (tp = Some ts \<or> tp = None \<and> themes_loaded is i ts) \<and>
                   (lp = Some ls \<or> lp = None \<and> langs_loaded is i ls)))))"

text \<open>
  The slot, the promises, the factory's invocations and the instances go together: nothing
  at all before the first call; afterwards one promise, in the slot, from one invocation,
  and an instance exactly when the promise is fulfilled, holding what the invocation
  asked for.
\<close>

definition slot_ok ::
  "(string \<Rightarrow> bool) \<Rightarrow> 'l LanguageInput table \<Rightarrow> 't table \<Rightarrow> 'w \<Rightarrow>
   nat option \<Rightarrow> ('l, 't, 'o, 'w) promise list \<Rightarrow> ('l, 't, 'o) BundledHighlighterOptions list \<Rightarrow>
   ('l, 't) HighlighterInstance list \<Rightarrow> bool"
where
  "slot_ok P bl bt w slot ps calls is =
     (case ps of
        [] \<Rightarrow> slot = None \<and> calls = [] \<and> is = []
      | [pr] \<Rightarrow>
          slot = Some 0 \<and> length calls = 1 \<and>
          (case pr of
             Pending co \<Rightarrow> is = [] \<and> coreOptions P bl bt w (calls ! 0) = Inr co
           | Rejected e \<Rightarrow> is = []
           | Fulfilled i \<Rightarrow>
               i = 0 \<and> length is = 1 \<and>
               (case coreOptions P bl bt w (calls ! 0) of
                  Inl e \<Rightarrow> False
                | Inr co \<Rightarrow>
                    themes_loaded is 0 (core_themes co) \<and> langs_loaded is 0 (core_langs co)))
      | pr # pr' # prs \<Rightarrow> False)"

definition invariant ::
  "(string \<Rightarrow> bool) \<Rightarrow> 'l LanguageInput table \<Rightarrow> 't table \<Rightarrow> 'w \<Rightarrow>
   ('l, 't, 'o, 'w) coordinator \<Rightarrow> bool"
where
  "invariant P bl bt w s =
     (slot_ok P bl bt w (shiki s) (promises s) (factory_calls s) (instances s) \<and>
      list_all (task_ok P bl bt (promises s) (instances s)) (tasks s))"

text \<open>
  The instances only gain definitions.
\<close>

definition grows ::
  "('l, 't) HighlighterInstance list \<Rightarrow> ('l, 't) HighlighterInstance list \<Rightarrow> bool"
where
  "grows is js = ((\<forall>i ts. themes_loaded is i ts \<longrightarrow> themes_loaded js i ts) \<and>
                  (\<forall>i ls. langs_loaded is i ls \<longrightarrow> langs_loaded js i ls))"

text \<open>
  The states a call with the request \<open>options\<close> goes through once it has found the slot
  occupied.
\<close>

fun waits_for :: "('l, 't) ThemeLang \<Rightarrow> ('l, 't) task \<Rightarrow> bool" where
  "waits_for options (Returned p) = False"
| "waits_for options (Awaiting p options') = (options' = options)"
| "waits_for options (Loading i options' tp lp err) = (options' = options)"
| "waits_for options (Failed e) = True"

subsection \<open>A small bundle for the closed examples\<close>

text \<open>
  Two tables written as object literals, and the requests used below.
\<close>

definition bundledLanguages_example :: "nat LanguageInput table" where
  "bundledLanguages_example = plain_object [(''js'', LangOther 1)]"

definition bundledThemes_example :: "nat table" where
  "bundledThemes_example = plain_object [(''nord'', 7), (''dracula'', 8)]"

definition init_example :: "(nat, nat, unit, unit) coordinator" where
  "init_example = init"

definition nord_js :: "(nat, nat) ThemeLang" where
  "nord_js = \<lparr> theme = One (ThemeId ''nord''), lang = One (LangId ''js'') \<rparr>"

definition dracula_js :: "(nat, nat) ThemeLang" where
  "dracula_js = \<lparr> theme = One (ThemeId ''dracula''), lang = One (LangId ''js'') \<rparr>"

definition nope_js :: "(nat, nat) ThemeLang" where
  "nope_js = \<lparr> theme = One (ThemeId ''nope''), lang = One (LangId ''js'') \<rparr>"


definition nord_and_empty :: "(nat, nat) CodeToHtmlThemesOptions" where
  "nord_and_empty =
     \<lparr> opt_lang = LangId ''js'',
       opt_themes = [(''light'', ThemeId ''nord''), (''dark'', ThemeId [])] \<rparr>"

section \<open>Properties\<close>

subsection \<open>The resolver over a list\<close>


lemma map_throw_Inr:
  "map_throw f xs = Inr ys \<Longrightarrow> length ys = length xs \<and> (\<forall>n<length xs. f (xs ! n) = Inr (ys ! n))"
proof (induction xs arbitrary: ys)
  case Nil
  then show ?case by simp
next
  case (Cons x xs)
  then obtain y ys' where fx: "f x = Inr y" and rest: "map_throw f xs = Inr ys'" and ys: "ys = y # ys'"
    by (auto split: sum.splits)
  from Cons.IH [OF rest] have "length ys' = length xs" and "\<forall>n<length xs. f (xs ! n) = Inr (ys' ! n)"
    by simp_all
  with fx ys show ?case
    by (auto simp: nth_Cons split: nat.splits)
qed

lemma map_throw_Inl:
  "map_throw f xs = Inl e \<Longrightarrow> \<exists>pre x post. xs = pre @ x # post \<and> f x = Inl e \<and> (\<forall>y\<in>set pre. \<exists>v. f y = Inr v)"
proof (induction xs)
  case Nil
  then show ?case by simp
next
  case (Cons x xs)
  show ?case
  proof (cases "f x")
    case (Inl e')
    with Cons.prems have "e' = e" by simp
    with Inl have "x # xs = [] @ x # xs \<and> f x = Inl e \<and> (\<forall>y\<in>set []. \<exists>v. f y = Inr v)" by simp
    then show ?thesis by blast
  next
    case (Inr v)
    with Cons.prems have "map_throw f xs = Inl e" by (simp split: sum.splits)
    from Cons.IH [OF this] obtain pre z post where
      "xs = pre @ z # post" "f z = Inl e" "\<forall>y\<in>set pre. \<exists>v. f y = Inr v" by blast
    with Inr have "x # xs = (x # pre) @ z # post \<and> f z = Inl e \<and> (\<forall>y\<in>set (x # pre). \<exists>v. f y = Inr v)"
      by simp
    then show ?thesis by blast
  qed
qed


subsection \<open>Which references fail\<close>

lemma resolveTheme_all:
  "\<not> list_ex (unbundledTheme bt) ts \<Longrightarrow> \<exists>ys. map_throw (resolveTheme bt) ts = Inr ys"
proof (induction ts)
  case Nil
  then show ?case by simp
next
  case (Cons r ts)
  then obtain ys where "map_throw (resolveTheme bt) ts = Inr ys" by auto
  note tl = this
  from Cons.prems have "\<exists>v. resolveTheme bt r = Inr v"
    by (cases r) (auto simp: Let_def)
  then obtain v where "resolveTheme bt r = Inr v" ..
  with tl show ?case by simp
qed

lemma resolveTheme_first:
  "list_ex (unbundledTheme bt) ts \<Longrightarrow>
   \<exists>i. find (unbundledTheme bt) ts = Some (ThemeId i) \<and>
       map_throw (resolveTheme bt) ts = Inl (NotBundled Theme i)"
proof (induction ts)
  case Nil
  then show ?case by simp
next
  case (Cons r ts)
  show ?case
  proof (cases "unbundledTheme bt r")
    case True
    then show ?thesis by (cases r) (auto simp: Let_def)
  next
    case False
    then have "\<exists>v. resolveTheme bt r = Inr v" by (cases r) (auto simp: Let_def)
    then obtain v where "resolveTheme bt r = Inr v" ..
    moreover from False Cons.prems have "list_ex (unbundledTheme bt) ts" by simp
    ultimately show ?thesis using Cons.IH False by auto
  qed
qed

lemma resolveLang_all:
  "\<not> list_ex (unbundledLang p bl) ls \<Longrightarrow> \<exists>ys. map_throw (resolveLang p bl) ls = Inr ys"
proof (induction ls)
  case Nil
  then show ?case by simp
next
  case (Cons r ls)
  then obtain ys where "map_throw (resolveLang p bl) ls = Inr ys" by auto
  note tl = this
  from Cons.prems have "\<exists>v. resolveLang p bl r = Inr v"
    by (cases r) (auto simp: Let_def)
  then obtain v where "resolveLang p bl r = Inr v" ..
  with tl show ?case by simp
qed

lemma resolveLang_first:
  "list_ex (unbundledLang p bl) ls \<Longrightarrow>
   \<exists>i. find (unbundledLang p bl) ls = Some (LangId i) \<and>
       map_throw (resolveLang p bl) ls = Inl (NotBundled Language i)"
proof (induction ls)
  case Nil
  then show ?case by simp
next
  case (Cons r ls)
  show ?case
  proof (cases "unbundledLang p bl r")
    case True
    then show ?thesis by (cases r) (auto simp: Let_def)
  next
    case False
    then have "\<exists>v. resolveLang p bl r = Inr v" by (cases r) (auto simp: Let_def)
    then obtain v where "resolveLang p bl r = Inr v" ..
    moreover from False Cons.prems have "list_ex (unbundledLang p bl) ls" by simp
    ultimately show ?thesis using Cons.IH False by auto
  qed
qed

lemma resolveTheme_error:
  "map_throw (resolveTheme bt) ts = Inl e \<Longrightarrow> \<exists>i. e = NotBundled Theme i"
proof -
  assume "map_throw (resolveTheme bt) ts = Inl e"
  from map_throw_Inl [OF this] obtain r where "resolveTheme bt r = Inl e" by blast
  then show ?thesis by (cases r) (auto simp: Let_def split: if_splits)
qed

lemma resolveLang_error:
  "map_throw (resolveLang p bl) ls = Inl e \<Longrightarrow> \<exists>i. e = NotBundled Language i"
proof -
  assume "map_throw (resolveLang p bl) ls = Inl e"
  from map_throw_Inl [OF this] obtain r where "resolveLang p bl r = Inl e" by blast
  then show ?thesis by (cases r) (auto simp: Let_def split: if_splits)
qed


subsection \<open>The example bundle\<close>

lemma ex_simps:
  "property bundledLanguages_example ''js'' = Definition (LangOther 1)"
  "property bundledLanguages_example ''unknown-lang'' = Undefined"
  "property bundledLanguages_example ''other'' = Undefined"
  "property bundledLanguages_example ''plaintext'' = Undefined"
  "property bundledLanguages_example ''toString'' = Inherited ''toString''"
  "property bundledThemes_example ''nord'' = Definition 7"
  "property bundledThemes_example ''dracula'' = Definition 8"
  "property bundledThemes_example ''nope'' = Undefined"
  "property bundledThemes_example '' '' = Undefined"
  "property bundledThemes_example [] = Undefined"
  "property bundledThemes_example ''constructor'' = Inherited ''constructor''"
  by (simp_all add: property_def bundledLanguages_example_def bundledThemes_example_def
        plain_object_def Object_prototype_def)

lemma ex_own:
  "own bundledLanguages_example ''js'' = Some (LangOther 1)"
  "own bundledLanguages_example ''unknown-lang'' = None"
  "''unknown-lang'' \<notin> set (proto bundledLanguages_example)"
  "own bundledThemes_example ''nord'' = Some 7"
  "own bundledThemes_example ''nope'' = None"
  "''nope'' \<notin> set (proto bundledThemes_example)"
  by (simp_all add: bundledLanguages_example_def bundledThemes_example_def
        plain_object_def Object_prototype_def)

subsection \<open>Claims about the resolver and getHighlighter\<close>

text \<open>
  Claim C2, amended. For a string id that is not a plaintext marker, \<open>resolveLang\<close> returns
  the language table's value when the id is a key, and fails with \<open>NotBundled Language\<close>
  carrying the id when the id is neither a key nor the name of a member that the table
  inherits; \<open>resolveTheme\<close> returns the theme table's value for a key, and fails with
  \<open>NotBundled Theme\<close> carrying the id when the id is neither a key nor inherited; a
  reference that is not a string is returned unchanged by both; the message of either
  error quotes the id. (The plaintext guard comes before the lookup, so a plaintext id
  that is also a key does not yield the table's value: see the counterexample. What
  happens for an inherited name is left to the lemma after the counterexample.)
\<close>
theorem resolve_by_id:
  "(\<not> isPlaintext i \<and> own bundledLanguages i = Some v \<longrightarrow>
      resolveLang isPlaintext bundledLanguages (LangId i) = Inr (Definition v)) \<and>
   (\<not> isPlaintext i \<and> own bundledLanguages i = None \<and> i \<notin> set (proto bundledLanguages) \<longrightarrow>
      resolveLang isPlaintext bundledLanguages (LangId i) = Inl (NotBundled Language i)) \<and>
   (own bundledThemes j = Some w \<longrightarrow>
      resolveTheme bundledThemes (ThemeId j) = Inr (Definition w)) \<and>
   (own bundledThemes j = None \<and> j \<notin> set (proto bundledThemes) \<longrightarrow>
      resolveTheme bundledThemes (ThemeId j) = Inl (NotBundled Theme j)) \<and>
   resolveLang isPlaintext bundledLanguages (LangDef d) = Inr d \<and>
   resolveTheme bundledThemes (ThemeDef t) = Inr t \<and>
   message (NotBundled Language i) = ''[shikiji] Language `'' @ i @ ''` is not built-in.'' \<and>
   message (NotBundled Theme j) = ''[shikiji] Theme `'' @ j @ ''` is not built-in.''"
  by (simp add: property_def Let_def)

theorem resolve_by_id_witness:
  "resolveLang isPlaintext_marker bundledLanguages_example (LangId ''js'')
     = Inr (Definition (LangOther 1)) \<and>
   resolveLang isPlaintext_marker bundledLanguages_example (LangId ''unknown-lang'')
     = Inl (NotBundled Language ''unknown-lang'') \<and>
   resolveTheme bundledThemes_example (ThemeId ''nord'') = Inr (Definition 7) \<and>
   resolveTheme bundledThemes_example (ThemeId ''nope'') = Inl (NotBundled Theme ''nope'')"
proof -
  let ?bl = "bundledLanguages_example"
  let ?bt = "bundledThemes_example"
  have a: "\<not> isPlaintext_marker ''js'' \<and> own ?bl ''js'' = Some (LangOther 1)"
    by (simp add: isPlaintext_marker_def ex_own)
  have b: "\<not> isPlaintext_marker ''unknown-lang'' \<and> own ?bl ''unknown-lang'' = None \<and>
           ''unknown-lang'' \<notin> set (proto ?bl)"
    by (simp add: isPlaintext_marker_def ex_own)
  have c: "own ?bt ''nord'' = Some 7" by (simp add: ex_own)
  have d: "own ?bt ''nope'' = None \<and> ''nope'' \<notin> set (proto ?bt)" by (simp add: ex_own)
  note 1 = resolve_by_id [where isPlaintext = isPlaintext_marker and i = "''js''"
      and bundledLanguages = ?bl and v = "LangOther 1" and bundledThemes = ?bt
      and j = "''nord''" and w = 7, THEN conjunct1, THEN mp, OF a]
  note 2 = resolve_by_id [where isPlaintext = isPlaintext_marker and i = "''unknown-lang''"
      and bundledLanguages = ?bl and bundledThemes = ?bt and j = "''nord''" and w = 7,
      THEN conjunct2, THEN conjunct1, THEN mp, OF b]
  note 3 = resolve_by_id [where isPlaintext = isPlaintext_marker and i = "''js''"
      and bundledLanguages = ?bl and bundledThemes = ?bt and j = "''nord''" and w = 7,
      THEN conjunct2, THEN conjunct2, THEN conjunct1, THEN mp, OF c]
  note 4 = resolve_by_id [where isPlaintext = isPlaintext_marker and i = "''js''"
      and bundledLanguages = ?bl and bundledThemes = ?bt and j = "''nope''",
      THEN conjunct2, THEN conjunct2, THEN conjunct2, THEN conjunct1, THEN mp, OF d]
  from 1 2 3 4 show ?thesis by (intro conjI)
qed

theorem resolve_by_id_counterexample:
  "own (plain_object [(''plaintext'', LangOther (1::nat))]) ''plaintext'' = Some (LangOther 1) \<and>
   resolveLang isPlaintext_marker (plain_object [(''plaintext'', LangOther (1::nat))])
       (LangId ''plaintext'')
     = Inr (Definition (LangArray [])) \<and>
   resolveLang isPlaintext_marker (plain_object [(''plaintext'', LangOther (1::nat))])
       (LangId ''plaintext'')
     \<noteq> Inr (Definition (LangOther 1))"
  by (simp add: isPlaintext_marker_def plain_object_def)

text \<open>
  An id that is no key but names a member the table inherits passes the test \<open>!bundle\<close>:
  the member is returned in place of a definition and nothing is thrown. For a table
  written as an object literal this is so for \<open>constructor\<close>, \<open>toString\<close> and the other
  members of \<open>Object.prototype\<close>.
\<close>

lemma inherited_name_is_returned:
  "(\<not> isPlaintext i \<and> own bundledLanguages i = None \<and> i \<in> set (proto bundledLanguages) \<longrightarrow>
      resolveLang isPlaintext bundledLanguages (LangId i) = Inr (Inherited i)) \<and>
   (own bundledThemes j = None \<and> j \<in> set (proto bundledThemes) \<longrightarrow>
      resolveTheme bundledThemes (ThemeId j) = Inr (Inherited j))"
  by (simp add: property_def Let_def)

lemma inherited_name_example:
  "resolveTheme bundledThemes_example (ThemeId ''constructor'') = Inr (Inherited ''constructor'') \<and>
   resolveLang isPlaintext_marker bundledLanguages_example (LangId ''toString'')
     = Inr (Inherited ''toString'')"
  by (simp add: ex_simps isPlaintext_marker_def Let_def)

text \<open>
  Claim C3. Whatever the language table holds, \<open>resolveLang\<close> applied to a plaintext marker
  returns the empty array and does not fail.
\<close>
theorem plaintext_resolves_empty:
  "isPlaintext i \<Longrightarrow>
   resolveLang isPlaintext bundledLanguages (LangId i) = Inr (Definition (LangArray []))"
  by simp

theorem plaintext_resolves_empty_witness:
  "isPlaintext_marker ''plaintext'' \<and>
   resolveLang isPlaintext_marker (plain_object [(''plaintext'', LangOther (1::nat))])
       (LangId ''plaintext'')
     = Inr (Definition (LangArray [])) \<and>
   resolveLang isPlaintext_marker (plain_object ([] :: (string \<times> nat LanguageInput) list))
       (LangId ''plaintext'')
     = Inr (Definition (LangArray []))"
proof -
  have h: "isPlaintext_marker ''plaintext''" by (simp add: isPlaintext_marker_def)
  note 1 = plaintext_resolves_empty [of isPlaintext_marker "''plaintext''"
      "plain_object [(''plaintext'', LangOther (1::nat))]", OF h]
  note 2 = plaintext_resolves_empty [of isPlaintext_marker "''plaintext''"
      "plain_object ([] :: (string \<times> nat LanguageInput) list)", OF h]
  from h 1 2 show ?thesis by (intro conjI)
qed

text \<open>
  Claim C4, amended. If the options hold a theme id that is neither a key of the theme
  table nor the name of a member it inherits, or a language id that is not a plaintext
  marker and is neither a key of the language table nor inherited, then
  \<open>getHighlighter\<close> fails with \<open>NotBundled\<close> for the first such theme id, or, when every theme
  resolves, for the first such language id; the list of constructor invocations is left as
  it was, whatever the engine. (A plaintext marker missing from the table is no failure:
  see the counterexample. An inherited name is no failure either: see the lemma after it.)
\<close>
theorem getHighlighter_unbundled:
  assumes ts: "ts = (case themes options of None \<Rightarrow> [] | Some x \<Rightarrow> x)"
      and ls: "ls = (case langs options of None \<Rightarrow> [] | Some x \<Rightarrow> x)"
      and bad: "list_ex (unbundledTheme bundledThemes) ts \<or>
                list_ex (unbundledLang isPlaintext bundledLanguages) ls"
  shows "\<exists>k i. getHighlighter isPlaintext bundledLanguages bundledThemes ladWasm emptyOptions
                  getHighlighterCore options calls = (Inl (NotBundled k i), calls) \<and>
               (if list_ex (unbundledTheme bundledThemes) ts
                then k = Theme \<and> find (unbundledTheme bundledThemes) ts = Some (ThemeId i)
                else k = Language \<and>
                     find (unbundledLang isPlaintext bundledLanguages) ls = Some (LangId i))"
proof (cases "list_ex (unbundledTheme bundledThemes) ts")
  case True
  from resolveTheme_first [OF True] obtain i where
    f: "find (unbundledTheme bundledThemes) ts = Some (ThemeId i)" and
    m: "map_throw (resolveTheme bundledThemes) ts = Inl (NotBundled Theme i)" by blast
  from m ts have "coreOptions isPlaintext bundledLanguages bundledThemes ladWasm options
                    = Inl (NotBundled Theme i)"
    by (simp add: coreOptions_def)
  then have "getHighlighter isPlaintext bundledLanguages bundledThemes ladWasm emptyOptions
               getHighlighterCore options calls = (Inl (NotBundled Theme i), calls)"
    by (simp add: getHighlighter_def)
  with True f show ?thesis by auto
next
  case False
  with bad have L: "list_ex (unbundledLang isPlaintext bundledLanguages) ls" by simp
  from resolveTheme_all [OF False] obtain ys where
    t: "map_throw (resolveTheme bundledThemes) ts = Inr ys" by blast
  from resolveLang_first [OF L] obtain i where
    f: "find (unbundledLang isPlaintext bundledLanguages) ls = Some (LangId i)" and
    m: "map_throw (resolveLang isPlaintext bundledLanguages) ls = Inl (NotBundled Language i)"
    by blast
  from t m ts ls have "coreOptions isPlaintext bundledLanguages bundledThemes ladWasm options
                    = Inl (NotBundled Language i)"
    by (simp add: coreOptions_def)
  then have "getHighlighter isPlaintext bundledLanguages bundledThemes ladWasm emptyOptions
               getHighlighterCore options calls = (Inl (NotBundled Language i), calls)"
    by (simp add: getHighlighter_def)
  with False f show ?thesis by auto
qed

theorem getHighlighter_unbundled_witness:
  "list_ex (unbundledLang isPlaintext_marker bundledLanguages_example)
     [LangId ''js'', LangId ''unknown-lang'', LangId ''other''] \<and>
   getHighlighter isPlaintext_marker bundledLanguages_example
       bundledThemes_example () () plainEngine
       \<lparr> themes = None, langs = Some [LangId ''js'', LangId ''unknown-lang'', LangId ''other''],
         other = ([] :: (string \<times> unit) list) \<rparr> []
     = (Inl (NotBundled Language ''unknown-lang''), [])"
proof -
  let ?bl = "bundledLanguages_example"
  let ?bt = "bundledThemes_example"
  let ?ls = "[LangId ''js'', LangId ''unknown-lang'', LangId ''other'']"
  let ?o = "\<lparr> themes = None, langs = Some ?ls, other = ([] :: (string \<times> unit) list) \<rparr>"
  have ts: "[] = (case themes ?o of None \<Rightarrow> [] | Some x \<Rightarrow> x)" by simp
  have ls: "?ls = (case langs ?o of None \<Rightarrow> [] | Some x \<Rightarrow> x)" by simp
  have bad: "list_ex (unbundledLang isPlaintext_marker ?bl) ?ls"
    by (simp add: isPlaintext_marker_def ex_simps)
  then have bad': "list_ex (unbundledTheme ?bt) [] \<or> list_ex (unbundledLang isPlaintext_marker ?bl) ?ls"
    by blast
  from getHighlighter_unbundled [OF ts ls bad', where ladWasm = "()" and emptyOptions = "()"
      and getHighlighterCore = plainEngine and calls = "[]"]
  obtain k i where
    r: "getHighlighter isPlaintext_marker ?bl ?bt () () plainEngine ?o [] = (Inl (NotBundled k i), [])"
    and w: "k = Language \<and> find (unbundledLang isPlaintext_marker ?bl) ?ls = Some (LangId i)"
    by auto
  from w have "k = Language" "i = ''unknown-lang''"
    by (simp_all add: isPlaintext_marker_def ex_simps)
  with r bad show ?thesis by simp
qed

theorem getHighlighter_unbundled_counterexample:
  "property (plain_object ([] :: (string \<times> nat LanguageInput) list)) ''plaintext'' = Undefined \<and>
   \<not> isl (fst (getHighlighter isPlaintext_marker
       (plain_object ([] :: (string \<times> nat LanguageInput) list))
       (plain_object ([] :: (string \<times> nat) list)) () () plainEngine
       \<lparr> themes = None, langs = Some [LangId ''plaintext''],
         other = ([] :: (string \<times> unit) list) \<rparr> [])) \<and>
   snd (getHighlighter isPlaintext_marker
       (plain_object ([] :: (string \<times> nat LanguageInput) list))
       (plain_object ([] :: (string \<times> nat) list)) () () plainEngine
       \<lparr> themes = None, langs = Some [LangId ''plaintext''],
         other = ([] :: (string \<times> unit) list) \<rparr> [])
     = [\<lparr> core_themes = [], core_langs = [Definition (LangArray [])], loadWasm = (),
          core_other = [] \<rparr>]"
  by (simp add: getHighlighter_def coreOptions_def isPlaintext_marker_def plainEngine_def
        property_def plain_object_def Object_prototype_def)

text \<open>
  With an inherited name among the languages, nothing is thrown and the engine's
  constructor is invoked, with the inherited member among the definitions.
\<close>

lemma inherited_name_reaches_engine:
  "snd (getHighlighter isPlaintext_marker bundledLanguages_example bundledThemes_example () ()
       plainEngine
       \<lparr> themes = None, langs = Some [LangId ''toString''],
         other = ([] :: (string \<times> unit) list) \<rparr> [])
     = [\<lparr> core_themes = [], core_langs = [Inherited ''toString''], loadWasm = (),
          core_other = [] \<rparr>]"
  by (simp add: getHighlighter_def coreOptions_def isPlaintext_marker_def plainEngine_def
        ex_simps Let_def)

text \<open>
  Claim C7. The instance that \<open>getHighlighter\<close> returns is built from the engine instance
  \<open>core\<close> the constructor gave: its \<open>loadLanguage\<close> and \<open>loadTheme\<close> pass every argument
  through \<open>resolveLang\<close> and \<open>resolveTheme\<close> and hand the resolved definitions, one per
  argument and in order, to the engine's loader (failing with the resolver's error
  otherwise); \<open>codeToThemedTokens\<close> and \<open>codeToHtmlThemes\<close> are the engine's own, and
  \<open>codeToHtml\<close> calls the engine's with the same code and options (the empty options when
  they are omitted).
\<close>
theorem wrapped_loaders_resolve:
  assumes "fst (getHighlighter isPlaintext bundledLanguages bundledThemes ladWasm emptyOptions
                  getHighlighterCore options calls) = Inr h"
  shows "\<exists>co core.
           coreOptions isPlaintext bundledLanguages bundledThemes ladWasm options = Inr co \<and>
           getHighlighterCore co = Inr core \<and>
           (\<forall>ls. loadLanguage h ls =
              (case map_throw (resolveLang isPlaintext bundledLanguages) ls of
                 Inl e \<Rightarrow> Inl e | Inr resolved \<Rightarrow> Inr (core_loadLanguage core resolved))) \<and>
           (\<forall>ts. loadTheme h ts =
              (case map_throw (resolveTheme bundledThemes) ts of
                 Inl e \<Rightarrow> Inl e | Inr resolved \<Rightarrow> Inr (core_loadTheme core resolved))) \<and>
           (\<forall>ls r. loadLanguage h ls = Inr r \<longrightarrow>
              (\<exists>resolved. r = core_loadLanguage core resolved \<and> length resolved = length ls \<and>
                 (\<forall>n<length ls. resolveLang isPlaintext bundledLanguages (ls ! n) = Inr (resolved ! n)))) \<and>
           (\<forall>ts r. loadTheme h ts = Inr r \<longrightarrow>
              (\<exists>resolved. r = core_loadTheme core resolved \<and> length resolved = length ts \<and>
                 (\<forall>n<length ts. resolveTheme bundledThemes (ts ! n) = Inr (resolved ! n)))) \<and>
           codeToThemedTokens h = core_codeToThemedTokens core \<and>
           codeToHtmlThemes h = core_codeToHtmlThemes core \<and>
           (\<forall>code opts. codeToHtml h code (Some opts) = core_codeToHtml core code opts) \<and>
           (\<forall>code. codeToHtml h code None = core_codeToHtml core code emptyOptions)"
proof -
  from assms obtain co core where
    co: "coreOptions isPlaintext bundledLanguages bundledThemes ladWasm options = Inr co" and
    core: "getHighlighterCore co = Inr core" and
    h: "h = wrapCore isPlaintext bundledLanguages bundledThemes emptyOptions core"
    by (auto simp: getHighlighter_def split: sum.splits)
  have L: "\<exists>resolved. r = core_loadLanguage core resolved \<and> length resolved = length ls \<and>
             (\<forall>n<length ls. resolveLang isPlaintext bundledLanguages (ls ! n) = Inr (resolved ! n))"
    if "loadLanguage h ls = Inr r" for ls r
  proof -
    from that h obtain resolved where
      m: "map_throw (resolveLang isPlaintext bundledLanguages) ls = Inr resolved" and
      r: "r = core_loadLanguage core resolved"
      by (auto simp: wrapCore_def split: sum.splits)
    from map_throw_Inr [OF m] r show ?thesis by blast
  qed
  have T: "\<exists>resolved. r = core_loadTheme core resolved \<and> length resolved = length ts \<and>
             (\<forall>n<length ts. resolveTheme bundledThemes (ts ! n) = Inr (resolved ! n))"
    if "loadTheme h ts = Inr r" for ts r
  proof -
    from that h obtain resolved where
      m: "map_throw (resolveTheme bundledThemes) ts = Inr resolved" and
      r: "r = core_loadTheme core resolved"
      by (auto simp: wrapCore_def split: sum.splits)
    from map_throw_Inr [OF m] r show ?thesis by blast
  qed
  from h have rest:
    "\<forall>ls. loadLanguage h ls =
        (case map_throw (resolveLang isPlaintext bundledLanguages) ls of
           Inl e \<Rightarrow> Inl e | Inr resolved \<Rightarrow> Inr (core_loadLanguage core resolved))"
    "\<forall>ts. loadTheme h ts =
        (case map_throw (resolveTheme bundledThemes) ts of
           Inl e \<Rightarrow> Inl e | Inr resolved \<Rightarrow> Inr (core_loadTheme core resolved))"
    "codeToThemedTokens h = core_codeToThemedTokens core"
    "codeToHtmlThemes h = core_codeToHtmlThemes core"
    "\<forall>code opts. codeToHtml h code (Some opts) = core_codeToHtml core code opts"
    "\<forall>code. codeToHtml h code None = core_codeToHtml core code emptyOptions"
    by (simp_all add: wrapCore_def)
  from co core rest L T show ?thesis by blast
qed



theorem wrapped_loaders_resolve_witness:
  "fst (getHighlighter isPlaintext_marker bundledLanguages_example
          bundledThemes_example () () plainEngine
          \<lparr> themes = Some [ThemeId ''nord''], langs = Some [LangId ''js''],
            other = ([] :: (string \<times> unit) list) \<rparr> [])
     = Inr (wrapCore isPlaintext_marker bundledLanguages_example
              bundledThemes_example () plainCore) \<and>
   loadLanguage (wrapCore isPlaintext_marker bundledLanguages_example
              bundledThemes_example () plainCore) [LangId ''js'', LangId ''plaintext'']
     = Inr () \<and>
   loadTheme (wrapCore isPlaintext_marker bundledLanguages_example
              bundledThemes_example () plainCore) [ThemeId ''nord'', ThemeId ''nope'']
     = Inl (NotBundled Theme ''nope'')"
proof -
  let ?bl = "bundledLanguages_example"
  let ?bt = "bundledThemes_example"
  let ?o = "\<lparr> themes = Some [ThemeId ''nord''], langs = Some [LangId ''js''],
             other = ([] :: (string \<times> unit) list) \<rparr>"
  let ?h = "wrapCore isPlaintext_marker ?bl ?bt () (plainCore :: (nat, nat, unit, string, unit) HighlighterCore)"
  have h: "fst (getHighlighter isPlaintext_marker ?bl ?bt () () plainEngine ?o []) = Inr ?h"
    by (simp add: getHighlighter_def coreOptions_def isPlaintext_marker_def plainEngine_def
          ex_simps Let_def)
  from wrapped_loaders_resolve [OF h]
  obtain core :: "(nat, nat, unit, string, unit) HighlighterCore" where
    l: "\<forall>ls. loadLanguage ?h ls =
          (case map_throw (resolveLang isPlaintext_marker ?bl) ls of
             Inl e \<Rightarrow> Inl e | Inr resolved \<Rightarrow> Inr (core_loadLanguage core resolved))" and
    t: "\<forall>ts. loadTheme ?h ts =
          (case map_throw (resolveTheme ?bt) ts of
             Inl e \<Rightarrow> Inl e | Inr resolved \<Rightarrow> Inr (core_loadTheme core resolved))"
    by blast
  from l have "loadLanguage ?h [LangId ''js'', LangId ''plaintext''] = Inr ()"
    by (simp add: isPlaintext_marker_def ex_simps Let_def)
  moreover from t have "loadTheme ?h [ThemeId ''nord'', ThemeId ''nope'']
      = Inl (NotBundled Theme ''nope'')"
    by (simp add: ex_simps Let_def)
  ultimately show ?thesis using h by simp
qed

text \<open>
  Claim C9, amended. When \<open>themes\<close> is omitted or the empty list, the resolved themes are
  the empty sequence and any resolution error comes from a language; likewise for \<open>langs\<close>;
  when both are omitted or empty, no error is raised by the resolution and the engine's
  constructor is invoked with two empty sequences, the loader handle of the factory and
  the caller's other options. (A list of whitespace-only ids gets no special treatment:
  see the counterexample.)
\<close>
theorem empty_lists_resolve:
  "(themes options = None \<or> themes options = Some [] \<longrightarrow>
      (\<forall>co. coreOptions isPlaintext bundledLanguages bundledThemes ladWasm options = Inr co
         \<longrightarrow> core_themes co = []) \<and>
      (\<forall>e. coreOptions isPlaintext bundledLanguages bundledThemes ladWasm options = Inl e
         \<longrightarrow> (\<exists>i. e = NotBundled Language i))) \<and>
   (langs options = None \<or> langs options = Some [] \<longrightarrow>
      (\<forall>co. coreOptions isPlaintext bundledLanguages bundledThemes ladWasm options = Inr co
         \<longrightarrow> core_langs co = []) \<and>
      (\<forall>e. coreOptions isPlaintext bundledLanguages bundledThemes ladWasm options = Inl e
         \<longrightarrow> (\<exists>i. e = NotBundled Theme i))) \<and>
   ((themes options = None \<or> themes options = Some []) \<and>
    (langs options = None \<or> langs options = Some []) \<longrightarrow>
      coreOptions isPlaintext bundledLanguages bundledThemes ladWasm options
        = Inr \<lparr> core_themes = [], core_langs = [], loadWasm = ladWasm,
                core_other = filter (\<lambda>p. fst p \<noteq> ''loadWasm'') (other options) \<rparr> \<and>
      getHighlighter isPlaintext bundledLanguages bundledThemes ladWasm emptyOptions
          getHighlighterCore options calls
        = (map_sum id (wrapCore isPlaintext bundledLanguages bundledThemes emptyOptions)
             (getHighlighterCore \<lparr> core_themes = [], core_langs = [], loadWasm = ladWasm,
                core_other = filter (\<lambda>p. fst p \<noteq> ''loadWasm'') (other options) \<rparr>),
           calls @ [\<lparr> core_themes = [], core_langs = [], loadWasm = ladWasm,
                core_other = filter (\<lambda>p. fst p \<noteq> ''loadWasm'') (other options) \<rparr>]))"
proof (intro conjI impI)
  assume "themes options = None \<or> themes options = Some []"
  then have t: "(case themes options of None \<Rightarrow> [] | Some x \<Rightarrow> x) = []" by auto
  show "\<forall>co. coreOptions isPlaintext bundledLanguages bundledThemes ladWasm options = Inr co
         \<longrightarrow> core_themes co = []"
    by (auto simp: coreOptions_def t split: sum.splits)
  show "\<forall>e. coreOptions isPlaintext bundledLanguages bundledThemes ladWasm options = Inl e
         \<longrightarrow> (\<exists>i. e = NotBundled Language i)"
    by (auto simp: coreOptions_def t split: sum.splits dest: resolveLang_error)
next
  assume "langs options = None \<or> langs options = Some []"
  then have l: "(case langs options of None \<Rightarrow> [] | Some x \<Rightarrow> x) = []" by auto
  show "\<forall>co. coreOptions isPlaintext bundledLanguages bundledThemes ladWasm options = Inr co
         \<longrightarrow> core_langs co = []"
    by (auto simp: coreOptions_def l split: sum.splits)
  show "\<forall>e. coreOptions isPlaintext bundledLanguages bundledThemes ladWasm options = Inl e
         \<longrightarrow> (\<exists>i. e = NotBundled Theme i)"
    by (auto simp: coreOptions_def l split: sum.splits dest: resolveTheme_error)
next
  assume "(themes options = None \<or> themes options = Some []) \<and>
          (langs options = None \<or> langs options = Some [])"
  then have t: "(case themes options of None \<Rightarrow> [] | Some x \<Rightarrow> x) = []"
    and l: "(case langs options of None \<Rightarrow> [] | Some x \<Rightarrow> x) = []" by auto
  show co: "coreOptions isPlaintext bundledLanguages bundledThemes ladWasm options
        = Inr \<lparr> core_themes = [], core_langs = [], loadWasm = ladWasm,
                core_other = filter (\<lambda>p. fst p \<noteq> ''loadWasm'') (other options) \<rparr>"
    by (simp add: coreOptions_def t l)
  show "getHighlighter isPlaintext bundledLanguages bundledThemes ladWasm emptyOptions
          getHighlighterCore options calls
        = (map_sum id (wrapCore isPlaintext bundledLanguages bundledThemes emptyOptions)
             (getHighlighterCore \<lparr> core_themes = [], core_langs = [], loadWasm = ladWasm,
                core_other = filter (\<lambda>p. fst p \<noteq> ''loadWasm'') (other options) \<rparr>),
           calls @ [\<lparr> core_themes = [], core_langs = [], loadWasm = ladWasm,
                core_other = filter (\<lambda>p. fst p \<noteq> ''loadWasm'') (other options) \<rparr>])"
    by (simp add: getHighlighter_def co split: sum.splits)
qed

theorem empty_lists_resolve_witness:
  "getHighlighter isPlaintext_marker bundledLanguages_example
       bundledThemes_example () () plainEngine
       \<lparr> themes = None, langs = Some [], other = ([] :: (string \<times> unit) list) \<rparr> []
     = (Inr (wrapCore isPlaintext_marker bundledLanguages_example
               bundledThemes_example () plainCore),
        [\<lparr> core_themes = [], core_langs = [], loadWasm = (), core_other = [] \<rparr>]) \<and>
   coreOptions isPlaintext_marker bundledLanguages_example
       bundledThemes_example ()
       \<lparr> themes = Some [], langs = Some [LangId ''js''], other = ([] :: (string \<times> unit) list) \<rparr>
     = Inr \<lparr> core_themes = [], core_langs = [Definition (LangOther 1)], loadWasm = (), core_other = [] \<rparr>"
proof -
  let ?bl = "bundledLanguages_example"
  let ?bt = "bundledThemes_example"
  let ?o = "\<lparr> themes = None, langs = Some [], other = ([] :: (string \<times> unit) list) \<rparr>"
  let ?o' = "\<lparr> themes = Some [], langs = Some [LangId ''js''], other = ([] :: (string \<times> unit) list) \<rparr>"
  have a: "(themes ?o = None \<or> themes ?o = Some []) \<and> (langs ?o = None \<or> langs ?o = Some [])"
    by simp
  from a empty_lists_resolve [of ?o isPlaintext_marker ?bl ?bt "()" "()" plainEngine "[]"]
  have 1: "getHighlighter isPlaintext_marker ?bl ?bt () () plainEngine ?o []
     = (Inr (wrapCore isPlaintext_marker ?bl ?bt () plainCore),
        [\<lparr> core_themes = [], core_langs = [], loadWasm = (), core_other = [] \<rparr>])"
    by (simp add: plainEngine_def)
  have b: "themes ?o' = None \<or> themes ?o' = Some []" by simp
  have c: "coreOptions isPlaintext_marker ?bl ?bt () ?o'
     = Inr \<lparr> core_themes = [], core_langs = [Definition (LangOther 1)], loadWasm = (), core_other = [] \<rparr>"
    by (simp add: coreOptions_def isPlaintext_marker_def ex_simps Let_def)
  from b c empty_lists_resolve [of ?o' isPlaintext_marker ?bl ?bt "()" "()" plainEngine "[]"]
  have "core_themes \<lparr> core_themes = [], core_langs = [Definition (LangOther (1::nat))], loadWasm = (),
           core_other = ([] :: (string \<times> unit) list) \<rparr> = ([] :: nat jsval list)"
    by simp
  with 1 c show ?thesis by simp
qed

theorem empty_lists_resolve_counterexample:
  "getHighlighter isPlaintext_marker bundledLanguages_example
       bundledThemes_example () () plainEngine
       \<lparr> themes = Some [ThemeId '' ''], langs = None, other = ([] :: (string \<times> unit) list) \<rparr> []
     = (Inl (NotBundled Theme '' ''), [])"
  by (simp add: getHighlighter_def coreOptions_def ex_simps Let_def)

subsection \<open>The invariant holds in every reachable state\<close>


lemma invariant_init: "invariant P bl bt w init"
  by (simp add: invariant_def slot_ok_def init_def)

lemma themes_loaded_append:
  "themes_loaded is i ts \<Longrightarrow> themes_loaded (is @ js) i ts"
  by (simp add: themes_loaded_def nth_append)

lemma langs_loaded_append:
  "langs_loaded is i ls \<Longrightarrow> langs_loaded (is @ js) i ls"
  by (simp add: langs_loaded_def nth_append)

lemma themes_loaded_update_themes:
  "themes_loaded is i ts \<Longrightarrow>
   themes_loaded (is[j := (is ! j)\<lparr> loadedThemes := List.union xs (loadedThemes (is ! j)) \<rparr>]) i ts"
  by (cases "i = j") (auto simp: themes_loaded_def)

lemma themes_loaded_update_langs:
  "themes_loaded is i ts \<Longrightarrow>
   themes_loaded (is[j := (is ! j)\<lparr> loadedLangs := List.union xs (loadedLangs (is ! j)) \<rparr>]) i ts"
  by (cases "i = j") (auto simp: themes_loaded_def)

lemma langs_loaded_update_themes:
  "langs_loaded is i ls \<Longrightarrow>
   langs_loaded (is[j := (is ! j)\<lparr> loadedThemes := List.union xs (loadedThemes (is ! j)) \<rparr>]) i ls"
  by (cases "i = j") (auto simp: langs_loaded_def)

lemma langs_loaded_update_langs:
  "langs_loaded is i ls \<Longrightarrow>
   langs_loaded (is[j := (is ! j)\<lparr> loadedLangs := List.union xs (loadedLangs (is ! j)) \<rparr>]) i ls"
  by (cases "i = j") (auto simp: langs_loaded_def)

lemma themes_loaded_new:
  "i < length is \<Longrightarrow>
   themes_loaded (is[i := (is ! i)\<lparr> loadedThemes := List.union ts (loadedThemes (is ! i)) \<rparr>]) i ts"
  by (auto simp: themes_loaded_def)

lemma langs_loaded_new:
  "i < length is \<Longrightarrow>
   langs_loaded (is[i := (is ! i)\<lparr> loadedLangs := List.union ls (loadedLangs (is ! i)) \<rparr>]) i ls"
  by (auto simp: langs_loaded_def)

lemma task_ok_grows:
  "task_ok P bl bt ps is x \<Longrightarrow> grows is js \<Longrightarrow> task_ok P bl bt ps js x"
  by (cases x) (auto simp: grows_def split: sum.splits)

lemma list_all_update:
  "list_all Q xs \<Longrightarrow> Q y \<Longrightarrow> list_all Q (xs[t := y])"
  by (auto simp: list_all_iff dest: set_update_subset_insert [THEN subsetD])

lemma invariant_call:
  assumes "invariant P bl bt w s"
  shows "invariant P bl bt w (getShikiWithThemeLang P bl bt w options s)"
proof (cases "shiki s")
  case None
  with assms have e: "promises s = []" "factory_calls s = []" "instances s = []"
    by (auto simp: invariant_def slot_ok_def split: list.splits)
  with assms have "tasks s = []"
    by (cases "tasks s"; cases "hd (tasks s)") (auto simp: invariant_def)
  with None e show ?thesis
    by (auto simp: invariant_def slot_ok_def getShikiWithThemeLang_def Let_def split: sum.splits)
next
  case (Some p)
  with assms have "p = 0" "promises s \<noteq> []"
    by (auto simp: invariant_def slot_ok_def split: list.splits)
  with assms Some show ?thesis
    by (auto simp: invariant_def getShikiWithThemeLang_def)
qed

lemma invariant_settle:
  fixes s :: "('l, 't, 'o, 'w) coordinator"
  assumes "invariant P bl bt w s"
  shows "invariant P bl bt w (settle p failure s)"
proof (cases "p < length (promises s) \<and> (\<exists>co. promises s ! p = Pending co)")
  case False
  then have "settle p failure s = s"
    by (auto simp: settle_def split: promise.splits)
  with assms show ?thesis by simp
next
  case True
  then obtain co where co: "p < length (promises s)" "promises s ! p = Pending co" by blast
  with assms have ps: "promises s = [Pending co]" "p = 0" and ins: "instances s = []"
    and calls: "length (factory_calls s) = 1" "shiki s = Some 0"
      "coreOptions P bl bt w (factory_calls s ! 0) = Inr co"
    by (auto simp: invariant_def slot_ok_def split: list.splits)
  have tasks: "task_ok P bl bt ps' is' x"
    if "x \<in> set (tasks s)" and "ps' \<noteq> []"
    for x and ps' :: "('l, 't, 'o, 'w) promise list" and is' :: "('l, 't) HighlighterInstance list"
  proof -
    from assms that(1) have "task_ok P bl bt (promises s) (instances s) x"
      by (simp add: invariant_def list_all_iff)
    with ps that(2) show ?thesis by (cases x) auto
  qed
  show ?thesis
  proof (cases failure)
    case None
    with co ps ins calls tasks show ?thesis
      by (auto simp: invariant_def slot_ok_def settle_def list_all_iff
            themes_loaded_def langs_loaded_def)
  next
    case (Some m)
    with co ps ins calls tasks show ?thesis
      by (auto simp: invariant_def slot_ok_def settle_def list_all_iff)
  qed
qed

lemma invariant_resume:
  assumes "invariant P bl bt w s"
  shows "invariant P bl bt w (resume P bl bt t s)"
proof -
  have keep: "invariant P bl bt w (s\<lparr> tasks := (tasks s)[t := x] \<rparr>)"
    if "task_ok P bl bt (promises s) (instances s) x" for x
    using assms that by (simp add: invariant_def list_all_update)
  show ?thesis
  proof (cases "t < length (tasks s)")
    case False
    then show ?thesis using assms by (simp add: resume_def)
  next
    case True
    show ?thesis
    proof (cases "tasks s ! t")
      case (Awaiting p options)
      from assms True have "task_ok P bl bt (promises s) (instances s) (tasks s ! t)"
        by (simp add: invariant_def list_all_length)
      with Awaiting have p: "p = 0" "promises s \<noteq> []" by simp_all
      with assms obtain pr where pr: "promises s = [pr]"
        by (auto simp: invariant_def slot_ok_def split: list.splits)
      show ?thesis
      proof (cases pr)
        case (Pending co)
        with True Awaiting p pr assms show ?thesis by (simp add: resume_def)
      next
        case (Rejected e)
        with True Awaiting p pr keep [of "Failed e"] show ?thesis by (simp add: resume_def)
      next
        case (Fulfilled i)
        with True Awaiting p pr
          keep [of "Failed e" for e]
          keep [of "Loading i options (Some ts) None (Some e)" for ts e]
          keep [of "Loading i options (Some ts) (Some ls) None" for ts ls]
        show ?thesis
          by (auto simp: resume_def split: sum.splits)
      qed
    qed (use assms True in \<open>simp_all add: resume_def\<close>)
  qed
qed

lemma invariant_themeLoaded:
  assumes "invariant P bl bt w s"
  shows "invariant P bl bt w (themeLoaded t failure s)"
proof (cases "t < length (tasks s) \<and> (\<exists>i options ts lp err. tasks s ! t = Loading i options (Some ts) lp err)")
  case False
  then have "themeLoaded t failure s = s"
    by (auto simp: themeLoaded_def split: task.splits option.splits)
  with assms show ?thesis by simp
next
  case True
  then obtain i options ts lp err where
    t: "t < length (tasks s)" and x: "tasks s ! t = Loading i options (Some ts) lp err" by blast
  from assms t have ok: "task_ok P bl bt (promises s) (instances s) (tasks s ! t)"
    by (simp add: invariant_def list_all_length)
  with x have ps: "promises s = [Fulfilled i]" by simp
  with assms have i: "i = 0" "length (instances s) = 1"
    by (auto simp: invariant_def slot_ok_def split: sum.splits)
  show ?thesis
  proof (cases failure)
    case (Some m)
    from ok x have "task_ok P bl bt (promises s) (instances s)
        (Loading i options None lp (first_error err (EngineFailure m)))"
      by (cases err) auto
    with assms t x Some show ?thesis
      by (simp add: themeLoaded_def invariant_def list_all_update)
  next
    case None
    let ?is = "(instances s)[i := (instances s ! i)
                 \<lparr> loadedThemes := List.union ts (loadedThemes (instances s ! i)) \<rparr>]"
    have g: "grows (instances s) ?is"
      by (simp add: grows_def themes_loaded_update_themes langs_loaded_update_themes)
    from assms have all: "list_all (task_ok P bl bt (promises s) ?is) (tasks s)"
      by (auto simp: invariant_def list_all_iff intro: task_ok_grows [OF _ g])
    from ok x i have new: "task_ok P bl bt (promises s) ?is (Loading i options None lp err)"
      using themes_loaded_new [of i "instances s" ts] g
      by (auto simp: grows_def split: sum.splits)
    from assms ps i g have slot: "slot_ok P bl bt w (shiki s) (promises s) (factory_calls s) ?is"
      by (auto simp: invariant_def slot_ok_def grows_def split: sum.splits)
    from t x None slot all new show ?thesis
      by (simp add: themeLoaded_def invariant_def list_all_update)
  qed
qed

lemma invariant_langLoaded:
  assumes "invariant P bl bt w s"
  shows "invariant P bl bt w (langLoaded t failure s)"
proof (cases "t < length (tasks s) \<and> (\<exists>i options tp ls err. tasks s ! t = Loading i options tp (Some ls) err)")
  case False
  then have "langLoaded t failure s = s"
    by (auto simp: langLoaded_def split: task.splits option.splits)
  with assms show ?thesis by simp
next
  case True
  then obtain i options tp ls err where
    t: "t < length (tasks s)" and x: "tasks s ! t = Loading i options tp (Some ls) err" by blast
  from assms t have ok: "task_ok P bl bt (promises s) (instances s) (tasks s ! t)"
    by (simp add: invariant_def list_all_length)
  with x have ps: "promises s = [Fulfilled i]" by simp
  with assms have i: "i = 0" "length (instances s) = 1"
    by (auto simp: invariant_def slot_ok_def split: sum.splits)
  show ?thesis
  proof (cases failure)
    case (Some m)
    from ok x have "task_ok P bl bt (promises s) (instances s)
        (Loading i options tp None (first_error err (EngineFailure m)))"
      by (cases err) auto
    with assms t x Some show ?thesis
      by (simp add: langLoaded_def invariant_def list_all_update)
  next
    case None
    let ?is = "(instances s)[i := (instances s ! i)
                 \<lparr> loadedLangs := List.union ls (loadedLangs (instances s ! i)) \<rparr>]"
    have g: "grows (instances s) ?is"
      by (simp add: grows_def themes_loaded_update_langs langs_loaded_update_langs)
    from assms have all: "list_all (task_ok P bl bt (promises s) ?is) (tasks s)"
      by (auto simp: invariant_def list_all_iff intro: task_ok_grows [OF _ g])
    from ok x i have new: "task_ok P bl bt (promises s) ?is (Loading i options tp None err)"
      using langs_loaded_new [of i "instances s" ls] g
      by (auto simp: grows_def split: sum.splits)
    from assms ps i g have slot: "slot_ok P bl bt w (shiki s) (promises s) (factory_calls s) ?is"
      by (auto simp: invariant_def slot_ok_def grows_def split: sum.splits)
    from t x None slot all new show ?thesis
      by (simp add: langLoaded_def invariant_def list_all_update)
  qed
qed

lemma invariant_step:
  "invariant P bl bt w s \<Longrightarrow> invariant P bl bt w (step P bl bt w a s)"
  by (cases a)
    (simp_all add: invariant_call invariant_settle invariant_resume invariant_themeLoaded
       invariant_langLoaded)

lemma invariant_run:
  "invariant P bl bt w s \<Longrightarrow> invariant P bl bt w (run P bl bt w acts s)"
  by (induction acts arbitrary: s) (simp_all add: invariant_step)


subsection \<open>What no step changes once the slot is set\<close>

lemma step_keeps_slot:
  assumes "shiki s = Some p"
  shows "shiki (step P bl bt w a s) = Some p \<and>
         factory_calls (step P bl bt w a s) = factory_calls s \<and>
         length (promises (step P bl bt w a s)) = length (promises s)"
proof (cases a)
  case (Call options)
  with assms show ?thesis by (simp add: getShikiWithThemeLang_def)
next
  case (Settle q failure)
  then show ?thesis using assms
    by (auto simp: settle_def split: promise.splits option.splits)
next
  case (Resume t)
  then show ?thesis using assms
    by (auto simp: resume_def split: task.splits promise.splits sum.splits)
next
  case (ThemeLoaded t failure)
  then show ?thesis using assms
    by (auto simp: themeLoaded_def split: task.splits option.splits)
next
  case (LangLoaded t failure)
  then show ?thesis using assms
    by (auto simp: langLoaded_def split: task.splits option.splits)
qed

lemma run_keeps_slot:
  "shiki s = Some p \<Longrightarrow>
   shiki (run P bl bt w acts s) = Some p \<and>
   factory_calls (run P bl bt w acts s) = factory_calls s \<and>
   length (promises (run P bl bt w acts s)) = length (promises s)"
proof (induction acts arbitrary: s)
  case Nil
  then show ?case by simp
next
  case (Cons a acts)
  from step_keeps_slot [OF Cons.prems, of P bl bt w a]
  have 1: "shiki (step P bl bt w a s) = Some p"
    and 2: "factory_calls (step P bl bt w a s) = factory_calls s"
    and 3: "length (promises (step P bl bt w a s)) = length (promises s)" by simp_all
  from Cons.IH [OF 1] 2 3 show ?case by simp
qed

lemma step_keeps_rejected:
  assumes "shiki s = Some p" and "promises s = [Rejected e]"
  shows "promises (step P bl bt w a s) = [Rejected e]"
proof (cases a)
  case (Call options)
  with assms show ?thesis by (simp add: getShikiWithThemeLang_def)
next
  case (Settle q failure)
  then show ?thesis using assms
    by (cases q) (auto simp: settle_def split: option.splits)
next
  case (Resume t)
  then show ?thesis using assms
    by (auto simp: resume_def split: task.splits promise.splits sum.splits)
next
  case (ThemeLoaded t failure)
  then show ?thesis using assms
    by (auto simp: themeLoaded_def split: task.splits option.splits)
next
  case (LangLoaded t failure)
  then show ?thesis using assms
    by (auto simp: langLoaded_def split: task.splits option.splits)
qed

lemma run_keeps_rejected:
  "shiki s = Some p \<Longrightarrow> promises s = [Rejected e] \<Longrightarrow>
   promises (run P bl bt w acts s) = [Rejected e]"
proof (induction acts arbitrary: s)
  case Nil
  then show ?case by simp
next
  case (Cons a acts)
  from step_keeps_slot [OF Cons.prems(1), of P bl bt w a]
  have "shiki (step P bl bt w a s) = Some p" by simp
  moreover from step_keeps_rejected [OF Cons.prems]
  have "promises (step P bl bt w a s) = [Rejected e]" .
  ultimately show ?case using Cons.IH by simp
qed

subsection \<open>A suspended call keeps its request\<close>



subsection \<open>Reading the invariant\<close>

lemma invariant_reachable: "invariant P bl bt w (run P bl bt w acts init)"
  by (rule invariant_run) (rule invariant_init)

lemma invariant_counts:
  assumes "invariant P bl bt w s"
  shows "length (promises s) \<le> 1" and "length (factory_calls s) = length (promises s)"
    and "length (instances s) \<le> 1"
  using assms
  by (auto simp: invariant_def slot_ok_def split: list.splits promise.splits)

lemma invariant_outcome:
  assumes "invariant P bl bt w s" and "outcome s t = Some (Inr i)"
  shows "promises s = [Fulfilled i] \<and> i = 0 \<and> length (instances s) = 1"
proof -
  from assms(2) have t: "t < length (tasks s)"
    by (auto simp: outcome_def split: if_splits)
  with assms(1) have ok: "task_ok P bl bt (promises s) (instances s) (tasks s ! t)"
    by (simp add: invariant_def list_all_length)
  have "promises s = [Fulfilled i]"
  proof (cases "tasks s ! t")
    case (Returned p)
    with ok have "p = 0" "promises s \<noteq> []" by simp_all
    moreover from assms(1) have "length (promises s) \<le> 1" by (rule invariant_counts)
    ultimately obtain pr where "promises s = [pr]"
      by (cases "promises s") auto
    with assms(2) t Returned \<open>p = 0\<close> show ?thesis
      by (auto simp: outcome_def split: promise.splits)
  next
    case (Awaiting p options)
    with assms(2) t show ?thesis by (simp add: outcome_def)
  next
    case (Loading j options tp lp err)
    with assms(2) t have "j = i"
      by (auto simp: outcome_def split: option.splits)
    with ok Loading show ?thesis by simp
  next
    case (Failed e)
    with assms(2) t show ?thesis by (simp add: outcome_def)
  qed
  with assms(1) show ?thesis
    by (auto simp: invariant_def slot_ok_def split: sum.splits)
qed



subsection \<open>The engine completes\<close>

lemma step_keeps_returned:
  assumes "t < length (tasks s)" and "tasks s ! t = Returned p"
  shows "t < length (tasks (step P bl bt w a s)) \<and> tasks (step P bl bt w a s) ! t = Returned p"
proof (cases a)
  case (Call options')
  with assms show ?thesis
    by (auto simp: getShikiWithThemeLang_def Let_def nth_append split: option.splits)
next
  case (Settle q failure)
  then show ?thesis using assms
    by (auto simp: settle_def split: promise.splits option.splits)
next
  case (Resume u)
  then show ?thesis using assms
    by (cases "u = t")
       (auto simp: resume_def split: task.splits promise.splits sum.splits)
next
  case (ThemeLoaded u failure)
  then show ?thesis using assms
    by (cases "u = t") (auto simp: themeLoaded_def split: task.splits option.splits)
next
  case (LangLoaded u failure)
  then show ?thesis using assms
    by (cases "u = t") (auto simp: langLoaded_def split: task.splits option.splits)
qed

lemma run_keeps_returned:
  "t < length (tasks s) \<Longrightarrow> tasks s ! t = Returned p \<Longrightarrow>
   t < length (tasks (run P bl bt w acts s)) \<and> tasks (run P bl bt w acts s) ! t = Returned p"
proof (induction acts arbitrary: s)
  case Nil
  then show ?case by simp
next
  case (Cons a acts)
  from step_keeps_returned [OF Cons.prems, of P bl bt w a] Cons.IH show ?case by simp
qed

text \<open>
  The state of a call that loads, after the engine has finished both loads without
  failure.
\<close>

lemma loads_complete:
  assumes "t < length (tasks s)" and "tasks s ! t = Loading i options tp lp err"
  shows "\<exists>s'. langLoaded t None (themeLoaded t None s) = s' \<and>
              t < length (tasks s') \<and> tasks s' ! t = Loading i options None None err \<and>
              promises s' = promises s"
  using assms
  by (cases tp; cases lp) (auto simp: themeLoaded_def langLoaded_def)

lemma completion_of_loading:
  assumes "t < length (tasks s)" and "tasks s ! t = Loading i options tp lp err"
  shows "outcome (run P bl bt w (completion t) s) t
           = (case err of None \<Rightarrow> Some (Inr i) | Some e \<Rightarrow> Some (Inl e))"
proof -
  from assms have 1: "settle 0 None s = s \<or> (t < length (tasks (settle 0 None s)) \<and>
      tasks (settle 0 None s) ! t = Loading i options tp lp err)"
    by (auto simp: settle_def split: promise.splits)
  with assms have 2: "t < length (tasks (settle 0 None s))"
    "tasks (settle 0 None s) ! t = Loading i options tp lp err" by auto
  then have 3: "resume P bl bt t (settle 0 None s) = settle 0 None s"
    by (simp add: resume_def)
  from loads_complete [OF 2] have
    "t < length (tasks (langLoaded t None (themeLoaded t None (settle 0 None s))))"
    "tasks (langLoaded t None (themeLoaded t None (settle 0 None s))) ! t
       = Loading i options None None err"
    by simp_all
  then show ?thesis
    by (cases err) (simp_all add: completion_def 3 outcome_def)
qed

lemma completion_of_awaiting:
  fixes s :: "('l, 't, 'o, 'w) coordinator"
  assumes inv: "invariant P bl bt w s"
      and t: "t < length (tasks s)" and x: "tasks s ! t = Awaiting p options"
  shows "outcome (run P bl bt w (completion t) s) t =
           (case promises s of
              [Rejected e] \<Rightarrow> Some (Inl e)
            | _ \<Rightarrow>
               (case map_throw (resolveTheme bt) (toArray (theme options)) of
                  Inl e \<Rightarrow> Some (Inl e)
                | Inr ts \<Rightarrow>
                    (case map_throw (resolveLang P bl) (toArray (lang options)) of
                       Inl e \<Rightarrow> Some (Inl e)
                     | Inr ls \<Rightarrow> Some (Inr 0))))"
proof -
  from inv t have "task_ok P bl bt (promises s) (instances s) (tasks s ! t)"
    by (simp add: invariant_def list_all_length)
  with x have p: "p = 0" "promises s \<noteq> []" by simp_all
  with inv obtain pr where pr: "promises s = [pr]"
    by (auto simp: invariant_def slot_ok_def split: list.splits)
  let ?s1 = "settle 0 None s"
  have s1: "t < length (tasks ?s1)" "tasks ?s1 ! t = Awaiting 0 options"
    using t x p by (auto simp: settle_def split: promise.splits)
  show ?thesis
  proof (cases pr)
    case (Rejected e)
    with pr have "?s1 = s" by (simp add: settle_def)
    with pr Rejected t x p show ?thesis
      by (simp add: completion_def resume_def themeLoaded_def langLoaded_def outcome_def)
  next
    case other: (Pending co)
    with pr have f: "promises ?s1 = [Fulfilled (length (instances s))]"
      by (simp add: settle_def)
    from inv pr other have "instances s = []"
      by (simp add: invariant_def slot_ok_def)
    with f have f0: "promises ?s1 = [Fulfilled 0]" by simp
    have "outcome (langLoaded t None (themeLoaded t None (resume P bl bt t ?s1))) t =
           (case map_throw (resolveTheme bt) (toArray (theme options)) of
              Inl e \<Rightarrow> Some (Inl e)
            | Inr ts \<Rightarrow>
                (case map_throw (resolveLang P bl) (toArray (lang options)) of
                   Inl e \<Rightarrow> Some (Inl e)
                 | Inr ls \<Rightarrow> Some (Inr 0)))"
      using s1 f0
      by (auto simp: resume_def themeLoaded_def langLoaded_def outcome_def split: sum.splits)
    with pr other show ?thesis by (simp add: completion_def)
  next
    case other: (Fulfilled i)
    with inv pr have i: "i = 0"
      by (auto simp: invariant_def slot_ok_def)
    from pr other have same: "?s1 = s" by (simp add: settle_def)
    have "outcome (langLoaded t None (themeLoaded t None (resume P bl bt t s))) t =
           (case map_throw (resolveTheme bt) (toArray (theme options)) of
              Inl e \<Rightarrow> Some (Inl e)
            | Inr ts \<Rightarrow>
                (case map_throw (resolveLang P bl) (toArray (lang options)) of
                   Inl e \<Rightarrow> Some (Inl e)
                 | Inr ls \<Rightarrow> Some (Inr 0)))"
      using t x p pr other i
      by (auto simp: resume_def themeLoaded_def langLoaded_def outcome_def split: sum.splits)
    with pr other same show ?thesis by (simp add: completion_def)
  qed
qed

lemma completion_of_returned:
  fixes s :: "('l, 't, 'o, 'w) coordinator"
  assumes inv: "invariant P bl bt w s"
      and t: "t < length (tasks s)" and x: "tasks s ! t = Returned p"
  shows "outcome (run P bl bt w (completion t) s) t =
           (case promises s of [Rejected e] \<Rightarrow> Some (Inl e) | _ \<Rightarrow> Some (Inr 0))"
proof -
  from inv t have "task_ok P bl bt (promises s) (instances s) (tasks s ! t)"
    by (simp add: invariant_def list_all_length)
  with x have p: "p = 0" "promises s \<noteq> []" by simp_all
  with inv obtain pr where pr: "promises s = [pr]"
    by (auto simp: invariant_def slot_ok_def split: list.splits)
  show ?thesis
  proof (cases pr)
    case (Rejected e)
    with pr t x p show ?thesis
      by (simp add: completion_def settle_def resume_def themeLoaded_def langLoaded_def
            outcome_def)
  next
    case other: (Pending co)
    from inv pr other have "instances s = []"
      by (simp add: invariant_def slot_ok_def)
    with pr other t x p show ?thesis
      by (simp add: completion_def settle_def resume_def themeLoaded_def langLoaded_def
            outcome_def)
  next
    case other: (Fulfilled i)
    with inv pr have "i = 0"
      by (auto simp: invariant_def slot_ok_def)
    with pr other t x p show ?thesis
      by (simp add: completion_def settle_def resume_def themeLoaded_def langLoaded_def
            outcome_def)
  qed
qed

lemma completion_settles:
  fixes s :: "('l, 't, 'o, 'w) coordinator"
  assumes inv: "invariant P bl bt w s" and t: "t < length (tasks s)"
  shows "outcome (run P bl bt w (completion t) s) t \<noteq> None"
proof (cases "tasks s ! t")
  case (Returned p)
  from completion_of_returned [OF inv t Returned] show ?thesis
    by (auto split: list.splits promise.splits)
next
  case (Awaiting p options)
  from completion_of_awaiting [OF inv t Awaiting] show ?thesis
    by (auto split: list.splits promise.splits sum.splits)
next
  case (Loading i options tp lp err)
  from completion_of_loading [OF t Loading, of P bl bt w] show ?thesis
    by (cases err) simp_all
next
  case (Failed e)
  with t have "tasks (run P bl bt w (completion t) s) ! t = Failed e \<and>
               t < length (tasks (run P bl bt w (completion t) s))"
    by (auto simp: completion_def settle_def resume_def themeLoaded_def langLoaded_def
          split: promise.splits)
  then show ?thesis by (simp add: outcome_def)
qed

text \<open>
  A call that has found the slot occupied and has not been answered yet receives instance
  0 when the engine completes, provided that the construction has not failed and that the
  themes and languages of its request resolve.
\<close>

lemma completion_returns:
  fixes s :: "('l, 't, 'o, 'w) coordinator"
  assumes inv: "invariant P bl bt w s" and t: "t < length (tasks s)"
      and w: "waits_for options (tasks s ! t)" and none: "outcome s t = None"
      and ok: "\<forall>e. promises s \<noteq> [Rejected e]"
      and ts: "map_throw (resolveTheme bt) (toArray (theme options)) = Inr ts"
      and ls: "map_throw (resolveLang P bl) (toArray (lang options)) = Inr ls"
  shows "outcome (run P bl bt w (completion t) s) t = Some (Inr 0)"
proof (cases "tasks s ! t")
  case (Returned p)
  with w show ?thesis by simp
next
  case (Awaiting p options')
  with w have "options' = options" by simp
  with completion_of_awaiting [OF inv t Awaiting] ok ts ls show ?thesis
    by (auto split: list.splits promise.splits)
next
  case (Loading i options' tp lp err)
  with none t have err: "err = None"
    by (cases err) (auto simp: outcome_def split: option.splits)
  from inv t have "task_ok P bl bt (promises s) (instances s) (tasks s ! t)"
    by (simp add: invariant_def list_all_length)
  with Loading have "promises s = [Fulfilled i]" by simp
  with inv have "i = 0" by (auto simp: invariant_def slot_ok_def)
  with completion_of_loading [OF t Loading, of P bl bt w] err show ?thesis by simp
next
  case (Failed e)
  with none t show ?thesis by (simp add: outcome_def)
qed


subsection \<open>Which id the resolver rejects\<close>

lemma resolveTheme_culprit:
  "map_throw (resolveTheme bt) rs = Inl e \<Longrightarrow>
   \<exists>n. ThemeId n \<in> set rs \<and> \<not> truthy (property bt n) \<and> e = NotBundled Theme n"
proof -
  assume "map_throw (resolveTheme bt) rs = Inl e"
  from map_throw_Inl [OF this] obtain pre r post where
    rs: "rs = pre @ r # post" and r: "resolveTheme bt r = Inl e" by blast
  from r obtain n where "r = ThemeId n" and "\<not> truthy (property bt n)" and "e = NotBundled Theme n"
    by (cases r) (auto simp: Let_def split: if_splits)
  with rs show ?thesis by auto
qed

lemma resolveLang_culprit:
  "map_throw (resolveLang P bl) rs = Inl e \<Longrightarrow>
   \<exists>n. LangId n \<in> set rs \<and> e = NotBundled Language n"
proof -
  assume "map_throw (resolveLang P bl) rs = Inl e"
  from map_throw_Inl [OF this] obtain pre r post where
    rs: "rs = pre @ r # post" and r: "resolveLang P bl r = Inl e" by blast
  from r obtain n where "r = LangId n" and "e = NotBundled Language n"
    by (cases r) (auto simp: Let_def split: if_splits)
  with rs show ?thesis by auto
qed

subsection \<open>Claims about the singleton and its shorthands\<close>

text \<open>
  Claim C1, amended. Take any schedule that begins with a call of
  \<open>getShikiWithThemeLang\<close>; further calls may come at any point of it, in particular before
  the first construction settles. Then \<open>getHighlighter\<close> has been invoked exactly once, with
  the themes and languages of the first call; there is one promise and at most one
  instance; any two callers that have received an instance have received the same one;
  every caller is answered once the engine completes; and a later caller that is still
  waiting receives the instance of the first caller, who receives it too, once the engine
  completes, provided that the construction has not failed and that the later caller's
  own themes and languages resolve. (A later caller whose id is not bundled is rejected
  while the first receives the instance: see the counterexample.)
\<close>
theorem singleton_construction:
  fixes s :: "('l, 't, 'o, 'w) coordinator"
  assumes "s = run P bl bt w (Call options # acts) init"
  shows "factory_calls s =
           [\<lparr> themes = Some (toArray (theme options)),
              langs = Some (toArray (lang options)), other = [] \<rparr>] \<and>
         length (promises s) = 1 \<and>
         length (instances s) \<le> 1 \<and>
         (\<forall>t t' i j. outcome s t = Some (Inr i) \<and> outcome s t' = Some (Inr j) \<longrightarrow> i = j) \<and>
         (\<forall>t<length (tasks s). outcome (run P bl bt w (completion t) s) t \<noteq> None) \<and>
         (\<forall>t options' ts ls.
            t < length (tasks s) \<and> waits_for options' (tasks s ! t) \<and> outcome s t = None \<and>
            (\<forall>e. promises s \<noteq> [Rejected e]) \<and>
            map_throw (resolveTheme bt) (toArray (theme options')) = Inr ts \<and>
            map_throw (resolveLang P bl) (toArray (lang options')) = Inr ls \<longrightarrow>
            outcome (run P bl bt w (completion t) s) t = Some (Inr 0) \<and>
            outcome (run P bl bt w (completion t) s) 0 = Some (Inr 0))"
proof -
  let ?s1 = "getShikiWithThemeLang P bl bt w options (init :: ('l, 't, 'o, 'w) coordinator)"
  have s: "s = run P bl bt w acts ?s1" using assms by simp
  have 1: "shiki ?s1 = Some 0"
    and 2: "factory_calls ?s1 =
           [\<lparr> themes = Some (toArray (theme options)),
              langs = Some (toArray (lang options)), other = [] \<rparr>]"
    and 3: "length (promises ?s1) = 1"
    and 4: "0 < length (tasks ?s1)" "tasks ?s1 ! 0 = Returned 0"
    by (simp_all add: getShikiWithThemeLang_def init_def Let_def)
  from run_keeps_slot [OF 1, of P bl bt w acts] 2 3 s
  have a: "factory_calls s =
           [\<lparr> themes = Some (toArray (theme options)),
              langs = Some (toArray (lang options)), other = [] \<rparr>]"
    and b: "length (promises s) = 1" by simp_all
  have inv: "invariant P bl bt w s"
    unfolding assms by (rule invariant_reachable)
  then have c: "length (instances s) \<le> 1" by (rule invariant_counts)
  have d: "i = j" if "outcome s t = Some (Inr i)" and "outcome s t' = Some (Inr j)" for t t' i j
    using invariant_outcome [OF inv that(1)] invariant_outcome [OF inv that(2)] by simp
  have e: "outcome (run P bl bt w (completion t) s) t \<noteq> None" if "t < length (tasks s)" for t
    using inv that by (rule completion_settles)
  from run_keeps_returned [OF 4, of P bl bt w acts] s
  have first: "0 < length (tasks s)" "tasks s ! 0 = Returned 0" by simp_all
  have f: "outcome (run P bl bt w (completion t) s) t = Some (Inr 0) \<and>
           outcome (run P bl bt w (completion t) s) 0 = Some (Inr 0)"
    if h: "t < length (tasks s) \<and> waits_for options' (tasks s ! t) \<and> outcome s t = None \<and>
        (\<forall>e. promises s \<noteq> [Rejected e]) \<and>
        map_throw (resolveTheme bt) (toArray (theme options')) = Inr ts \<and>
        map_throw (resolveLang P bl) (toArray (lang options')) = Inr ls"
    for t options' ts ls
  proof -
    let ?s' = "run P bl bt w (completion t) s"
    from h have later: "outcome ?s' t = Some (Inr 0)"
      using completion_returns [OF inv, of t options' ts ls] by blast
    have inv': "invariant P bl bt w ?s'" using inv by (rule invariant_run)
    from invariant_outcome [OF inv' later] have ps: "promises ?s' = [Fulfilled 0]" by simp
    from run_keeps_returned [OF first, of P bl bt w "completion t"]
    have "0 < length (tasks ?s')" "tasks ?s' ! 0 = Returned 0" by simp_all
    with ps have "outcome ?s' 0 = Some (Inr 0)" by (simp add: outcome_def)
    with later show ?thesis by simp
  qed
  from a b c d e f show ?thesis by blast
qed

theorem singleton_construction_witness:
  "length (factory_calls (run isPlaintext_marker bundledLanguages_example bundledThemes_example () [Call nord_js, Call dracula_js] init_example)) = 1 \<and>
   outcome (run isPlaintext_marker bundledLanguages_example bundledThemes_example () [Call nord_js, Call dracula_js] init_example) 1 = None \<and>
   outcome (run isPlaintext_marker bundledLanguages_example bundledThemes_example () (completion 1) (run isPlaintext_marker bundledLanguages_example bundledThemes_example () [Call nord_js, Call dracula_js] init_example)) 0
     = Some (Inr 0) \<and>
   outcome (run isPlaintext_marker bundledLanguages_example bundledThemes_example () (completion 1) (run isPlaintext_marker bundledLanguages_example bundledThemes_example () [Call nord_js, Call dracula_js] init_example)) 1
     = Some (Inr 0)"
proof -
  let ?two = "run isPlaintext_marker bundledLanguages_example bundledThemes_example () [Call nord_js, Call dracula_js] init_example"
  note defs = init_example_def init_def getShikiWithThemeLang_def coreOptions_def
    isPlaintext_marker_def ex_simps nord_js_def dracula_js_def Let_def outcome_def
  have reach: "?two = run isPlaintext_marker bundledLanguages_example bundledThemes_example () (Call nord_js # [Call dracula_js]) init"
    by (simp only: init_example_def)
  note fact = singleton_construction [OF reach]
  from fact have n: "factory_calls ?two =
      [\<lparr> themes = Some (toArray (theme nord_js)), langs = Some (toArray (lang nord_js)),
         other = [] \<rparr>]"
    by (elim conjE)
  from fact have progress: "\<forall>t options' ts ls.
      t < length (tasks ?two) \<and> waits_for options' (tasks ?two ! t) \<and> outcome ?two t = None \<and>
      (\<forall>e. promises ?two \<noteq> [Rejected e]) \<and>
      map_throw (resolveTheme bundledThemes_example) (toArray (theme options')) = Inr ts \<and>
      map_throw (resolveLang isPlaintext_marker bundledLanguages_example)
        (toArray (lang options')) = Inr ls \<longrightarrow>
      outcome (run isPlaintext_marker bundledLanguages_example bundledThemes_example () (completion t) ?two) t = Some (Inr 0) \<and>
      outcome (run isPlaintext_marker bundledLanguages_example bundledThemes_example () (completion t) ?two) 0 = Some (Inr 0)"
    by (elim conjE)
  have h: "1 < length (tasks ?two) \<and> waits_for dracula_js (tasks ?two ! 1) \<and>
      outcome ?two 1 = None \<and> (\<forall>e. promises ?two \<noteq> [Rejected e]) \<and>
      map_throw (resolveTheme bundledThemes_example) (toArray (theme dracula_js))
        = Inr [Definition 8] \<and>
      map_throw (resolveLang isPlaintext_marker bundledLanguages_example)
        (toArray (lang dracula_js)) = Inr [Definition (LangOther 1)]"
    by (simp add: defs)
  from progress [rule_format, OF h]
  have both: "outcome (run isPlaintext_marker bundledLanguages_example bundledThemes_example () (completion 1) ?two) 1 = Some (Inr 0) \<and>
              outcome (run isPlaintext_marker bundledLanguages_example bundledThemes_example () (completion 1) ?two) 0 = Some (Inr 0)" .
  from h have "outcome ?two 1 = None" by (elim conjE)
  with n both show ?thesis by simp
qed

theorem singleton_construction_counterexample:
  "length (factory_calls
      (run isPlaintext_marker bundledLanguages_example bundledThemes_example () [Call nord_js, Call nope_js, Settle 0 None, Resume 1] init_example)) = 1 \<and>
   outcome (run isPlaintext_marker bundledLanguages_example bundledThemes_example () [Call nord_js, Call nope_js, Settle 0 None, Resume 1] init_example) 0
     = Some (Inr 0) \<and>
   outcome (run isPlaintext_marker bundledLanguages_example bundledThemes_example () [Call nord_js, Call nope_js, Settle 0 None, Resume 1] init_example) 1
     = Some (Inl (NotBundled Theme ''nope''))"
  by (simp add: init_example_def init_def getShikiWithThemeLang_def coreOptions_def
        isPlaintext_marker_def ex_simps nord_js_def nope_js_def Let_def settle_def resume_def
        outcome_def)

text \<open>
  Claim C6. Once the promise in the slot is rejected, in a reachable state, every later
  schedule leaves the slot pointing at that promise and the promise rejected with the same
  error; \<open>getHighlighter\<close> is not invoked again and no instance exists; and every call has
  been rejected with that error, or is still suspended and is rejected with it as soon as
  it resumes.
\<close>
theorem failed_construction_persists:
  fixes s :: "('l, 't, 'o, 'w) coordinator"
  assumes reach: "s = run P bl bt w pre init"
      and slot: "shiki s = Some p"
      and p: "p < length (promises s)"
      and rej: "promises s ! p = Rejected e"
      and later: "s' = run P bl bt w post s"
  shows "shiki s' = Some p \<and>
         promises s' = [Rejected e] \<and>
         factory_calls s' = factory_calls s \<and>
         length (factory_calls s') = 1 \<and>
         instances s' = [] \<and>
         (\<forall>t<length (tasks s').
            outcome s' t = Some (Inl e) \<or>
            outcome s' t = None \<and> outcome (resume P bl bt t s') t = Some (Inl e))"
proof -
  have inv: "invariant P bl bt w s" unfolding reach by (rule invariant_reachable)
  with slot p rej have ps: "promises s = [Rejected e]" and p0: "p = 0"
    by (auto simp: invariant_def slot_ok_def split: list.splits)
  from run_keeps_slot [OF slot, of P bl bt w post] later
  have a: "shiki s' = Some p" and b: "factory_calls s' = factory_calls s" by simp_all
  from run_keeps_rejected [OF slot ps, of P bl bt w post] later
  have c: "promises s' = [Rejected e]" by simp
  have inv': "invariant P bl bt w s'" unfolding later using inv by (rule invariant_run)
  with c have d: "length (factory_calls s') = 1" and f: "instances s' = []"
    by (auto simp: invariant_def slot_ok_def)
  have g: "outcome s' t = Some (Inl e) \<or>
           outcome s' t = None \<and> outcome (resume P bl bt t s') t = Some (Inl e)"
    if t: "t < length (tasks s')" for t
  proof -
    from inv' t have ok: "task_ok P bl bt (promises s') (instances s') (tasks s' ! t)"
      by (simp add: invariant_def list_all_length)
    show ?thesis
    proof (cases "tasks s' ! t")
      case (Returned q)
      with ok c t show ?thesis by (simp add: outcome_def)
    next
      case (Awaiting q options)
      with ok c t show ?thesis by (simp add: outcome_def resume_def)
    next
      case (Loading i options tp lp err)
      with ok c show ?thesis by simp
    next
      case (Failed e')
      with ok c t show ?thesis by (simp add: outcome_def)
    qed
  qed
  from a b c d f g show ?thesis by blast
qed

theorem failed_construction_persists_witness:
  "promises (run isPlaintext_marker bundledLanguages_example bundledThemes_example () [Call nord_js, Settle 0 (Some ''wasm'')] init_example) ! 0
     = Rejected (EngineFailure ''wasm'') \<and>
   promises (run isPlaintext_marker bundledLanguages_example bundledThemes_example () [Call dracula_js, Resume 1, Settle 0 None]
      (run isPlaintext_marker bundledLanguages_example bundledThemes_example () [Call nord_js, Settle 0 (Some ''wasm'')] init_example))
     = [Rejected (EngineFailure ''wasm'')] \<and>
   outcome (run isPlaintext_marker bundledLanguages_example bundledThemes_example () [Call dracula_js, Resume 1, Settle 0 None]
      (run isPlaintext_marker bundledLanguages_example bundledThemes_example () [Call nord_js, Settle 0 (Some ''wasm'')] init_example)) 1
     = Some (Inl (EngineFailure ''wasm''))"
proof -
  let ?pre = "[Call nord_js, Settle 0 (Some ''wasm'')]"
  let ?post = "[Call dracula_js, Resume 1, Settle 0 None]"
  let ?before = "run isPlaintext_marker bundledLanguages_example bundledThemes_example () ?pre init_example"
  let ?after = "run isPlaintext_marker bundledLanguages_example bundledThemes_example () ?post ?before"
  note defs = init_example_def init_def getShikiWithThemeLang_def coreOptions_def
    isPlaintext_marker_def ex_simps nord_js_def dracula_js_def Let_def settle_def resume_def
    outcome_def
  have reach: "?before = run isPlaintext_marker bundledLanguages_example bundledThemes_example () ?pre init"
    by (simp only: init_example_def)
  have slot: "shiki ?before = Some 0" and p: "0 < length (promises ?before)"
    and rej: "promises ?before ! 0 = Rejected (EngineFailure ''wasm'')"
    by (simp_all add: defs)
  have o: "outcome ?after 1 = Some (Inl (EngineFailure ''wasm''))"
    by (simp add: defs)
  have later: "?after = run isPlaintext_marker bundledLanguages_example bundledThemes_example () ?post ?before" by (rule refl)
  from failed_construction_persists [OF reach slot p rej later]
  have "promises ?after = [Rejected (EngineFailure ''wasm'')]" by (elim conjE)
  with rej o show ?thesis by (intro conjI)
qed







text \<open>
  Claim C10. The empty string is never among the themes of the request of
  \<open>codeToHtmlThemes\<close>, so it is never handed to \<open>resolveTheme\<close>: a role whose value is the
  empty string gives the same request as one whose value is \<open>undefined\<close>, the resolution of
  the request's themes never fails with \<open>NotBundled Theme\<close> for the empty id, and the first
  call is never rejected with that error, whatever the tables hold.
\<close>
theorem codeToHtmlThemes_drops_empty_string:
  "ThemeId [] \<notin> set (toArray (theme (codeToHtmlThemes_request options))) \<and>
   codeToHtmlThemes_request (options\<lparr> opt_themes := before @ (role, ThemeId []) # after \<rparr>)
     = codeToHtmlThemes_request
         (options\<lparr> opt_themes := before @ (role, ThemeDef Undefined) # after \<rparr>) \<and>
   map_throw (resolveTheme bt) (toArray (theme (codeToHtmlThemes_request options)))
     \<noteq> Inl (NotBundled Theme []) \<and>
   promises (codeToHtmlThemes_shorthand P bl bt w options (init :: ('l, 't, 'o, 'w) coordinator))
     \<noteq> [Rejected (NotBundled Theme [])]"
proof (intro conjI)
  show 1: "ThemeId [] \<notin> set (toArray (theme (codeToHtmlThemes_request options)))"
    by (simp add: codeToHtmlThemes_request_def)
  show "codeToHtmlThemes_request (options\<lparr> opt_themes := before @ (role, ThemeId []) # after \<rparr>)
     = codeToHtmlThemes_request
         (options\<lparr> opt_themes := before @ (role, ThemeDef Undefined) # after \<rparr>)"
    by (simp add: codeToHtmlThemes_request_def Object_values_def)
  show 2: "map_throw (resolveTheme bt) (toArray (theme (codeToHtmlThemes_request options)))
     \<noteq> Inl (NotBundled Theme [])"
  proof
    assume "map_throw (resolveTheme bt) (toArray (theme (codeToHtmlThemes_request options)))
       = Inl (NotBundled Theme [])"
    from resolveTheme_culprit [OF this] 1 show False by auto
  qed
  show "promises (codeToHtmlThemes_shorthand P bl bt w options (init :: ('l, 't, 'o, 'w) coordinator))
     \<noteq> [Rejected (NotBundled Theme [])]"
  proof
    assume a: "promises (codeToHtmlThemes_shorthand P bl bt w options
                 (init :: ('l, 't, 'o, 'w) coordinator)) = [Rejected (NotBundled Theme [])]"
    let ?ts = "toArray (theme (codeToHtmlThemes_request options))"
    show False
    proof (cases "map_throw (resolveTheme bt) ?ts")
      case (Inl e)
      with a have "e = NotBundled Theme []"
        by (simp add: codeToHtmlThemes_shorthand_def getShikiWithThemeLang_def init_def
              coreOptions_def Let_def)
      with Inl 2 show False by simp
    next
      case (Inr ts)
      with a obtain e where
        "map_throw (resolveLang P bl) (toArray (lang (codeToHtmlThemes_request options))) = Inl e"
        and "e = NotBundled Theme []"
        by (auto simp: codeToHtmlThemes_shorthand_def getShikiWithThemeLang_def init_def
              coreOptions_def Let_def split: sum.splits)
      with resolveLang_culprit [of P bl _ e] show False by blast
    qed
  qed
qed

theorem codeToHtmlThemes_drops_empty_string_witness:
  "codeToHtmlThemes_request nord_and_empty
     = \<lparr> theme = Many [ThemeId ''nord''], lang = One (LangId ''js'') \<rparr> \<and>
   property bundledThemes_example [] = Undefined \<and>
   promises (codeToHtmlThemes_shorthand isPlaintext_marker bundledLanguages_example bundledThemes_example () nord_and_empty init_example) \<noteq> [Rejected (NotBundled Theme [])]"
proof -
  let ?opts = "nord_and_empty"
  have req: "codeToHtmlThemes_request ?opts
      = \<lparr> theme = Many [ThemeId ''nord''], lang = One (LangId ''js'') \<rparr>"
    by (simp add: codeToHtmlThemes_request_def Object_values_def nord_and_empty_def)
  have none: "property bundledThemes_example [] = Undefined"
    by (simp add: ex_simps)
  note fact = codeToHtmlThemes_drops_empty_string
    [where 'o = unit and options = ?opts and P = isPlaintext_marker
       and bl = bundledLanguages_example and bt = bundledThemes_example and w = "()"
       and before = "[]" and role = "''dark''" and after = "[]"]
  from fact have "promises (codeToHtmlThemes_shorthand isPlaintext_marker bundledLanguages_example bundledThemes_example () ?opts (init :: (nat, nat, unit, unit) coordinator))
     \<noteq> [Rejected (NotBundled Theme [])]"
    by (elim conjE)
  then have "promises (codeToHtmlThemes_shorthand isPlaintext_marker bundledLanguages_example bundledThemes_example () ?opts init_example) \<noteq> [Rejected (NotBundled Theme [])]"
    unfolding init_example_def .
  with req none show ?thesis by (intro conjI)
qed

end
